theory Spec2Isabelle
  imports Main
begin

section \<open>The commit-log provider of the GitHub integration\<close>

text \<open>
  A shallow embedding of \<^verbatim>\<open>CommitsGitSubProvider\<close> (src/unnamed/part_000): the
  operations \<^verbatim>\<open>getLog\<close>, \<^verbatim>\<open>getLogMoreFn\<close>, \<^verbatim>\<open>getLogForPath\<close>,
  \<^verbatim>\<open>getLogForPathCore\<close>, \<^verbatim>\<open>getLogForPathMoreFn\<close>, \<^verbatim>\<open>isAncestorOf\<close>,
  \<^verbatim>\<open>getCommit\<close> and \<^verbatim>\<open>searchCommits\<close>.

  Conventions of the embedding.
  \<^item> A value that may be \<^verbatim>\<open>undefined\<close> or \<^verbatim>\<open>null\<close> is an \<open>option\<close>.
  \<^item> A thrown exception (a rejected promise) is \<open>Inl\<close> of a sum type.
  \<^item> A JavaScript \<^verbatim>\<open>Map\<close> is an association list in insertion order.
  \<^item> Every asynchronous operation runs to completion before the next one starts, so a
    promise is represented by the value it settles to.
  \<^item> The collaborators that are not part of the source file (the remote client, the
    paging policy, path utilities, the document tracker's keying) are the fields of an
    environment record \<open>env\<close>. They are functions of their arguments, so the remote
    answers a repeated request the same way; nothing else is assumed about them.
  \<^item> A closure stored in a log (\<^verbatim>\<open>more\<close>, \<^verbatim>\<open>query\<close>) is a tag naming the function
    and the arguments it captured.
\<close>

subsection \<open>JavaScript values\<close>

text \<open>
  What a \<^verbatim>\<open>throw\<close> or a rejected promise carries: an \<^verbatim>\<open>Error\<close> or a \<^verbatim>\<open>TypeError\<close> with
  its message, or a value that is no error object, held by what \<^verbatim>\<open>ex?.toString()\<close> gives
  for it (\<open>None\<close> for \<^verbatim>\<open>null\<close> and \<^verbatim>\<open>undefined\<close>).
\<close>

datatype error = Error string | TypeError string | Thrown "string option"

text \<open>
  \<^verbatim>\<open>ex?.toString() ?? ''\<close>. \<^verbatim>\<open>Error.prototype.toString\<close> gives the name alone when the
  message is empty, and the name, a colon, a space and the message otherwise.
\<close>

fun toString :: "error \<Rightarrow> string" where
  "toString (Error m) = (if m = [] then ''Error'' else ''Error: '' @ m)"
| "toString (TypeError m) = (if m = [] then ''TypeError'' else ''TypeError: '' @ m)"
| "toString (Thrown None) = []"
| "toString (Thrown (Some t)) = t"

fun string_of_nat :: "nat \<Rightarrow> string" where
  "string_of_nat n =
     (if n < 10 then [''0123456789'' ! n]
      else string_of_nat (n div 10) @ [''0123456789'' ! (n mod 10)])"

declare string_of_nat.simps [simp del]

text \<open>Truthiness of a possibly absent string.\<close>

fun truthy_string :: "string option \<Rightarrow> bool" where
  "truthy_string None = False"
| "truthy_string (Some s) = (s \<noteq> [])"

subsection \<open>An insertion-ordered Map\<close>

text \<open>
  \<^verbatim>\<open>Map.prototype.set\<close>: a key already present keeps its position and takes the new
  value; a new key goes to the end.
\<close>

fun map_set :: "('k \<times> 'v) list \<Rightarrow> 'k \<Rightarrow> 'v \<Rightarrow> ('k \<times> 'v) list" where
  "map_set [] k v = [(k, v)]"
| "map_set ((k', v') # m) k v = (if k' = k then (k, v) # m else (k', v') # map_set m k v)"

text \<open>\<^verbatim>\<open>new Map(entries)\<close> sets the entries one after the other.\<close>

definition new_Map :: "('k \<times> 'v) list \<Rightarrow> ('k \<times> 'v) list" where
  "new_Map es = foldl (\<lambda>m e. map_set m (fst e) (snd e)) [] es"

definition map_has :: "('k \<times> 'v) list \<Rightarrow> 'k \<Rightarrow> bool" where
  "map_has m k = (map_of m k \<noteq> None)"

text \<open>\<^verbatim>\<open>Map.prototype.delete\<close>.\<close>

definition map_delete :: "('k \<times> 'v) list \<Rightarrow> 'k \<Rightarrow> ('k \<times> 'v) list" where
  "map_delete m k = filter (\<lambda>e. fst e \<noteq> k) m"

subsection \<open>Remote records\<close>

record GitHubCommitIdentity =
  gh_name :: string
  gh_email :: string
  gh_date :: string
  gh_avatarUrl :: "string option"

record GitHubCommitFile =
  filename :: "string option"
  gh_status :: "string option"
  previous_filename :: "string option"
  gh_file_additions :: "int option"
  gh_file_deletions :: "int option"
  gh_file_changes :: "int option"

text \<open>
  The \<^verbatim>\<open>viewer\<close> property of a remote answer: missing, \<^verbatim>\<open>null\<close>, or a name. The default
  of the destructuring \<^verbatim>\<open>const { viewer = session.account.label } = ...\<close> applies to the
  missing property only.
\<close>

datatype viewer = ViewerUndefined | ViewerNull | Viewer string

record GitHubCommit =
  oid :: string
  gh_author :: GitHubCommitIdentity
  gh_committer :: GitHubCommitIdentity
  gh_message :: string
  gh_parents :: "string list"
  gh_files :: "GitHubCommitFile list option"
  changedFiles :: "int option"
  gh_additions :: "int option"
  gh_deletions :: "int option"
  gh_viewer :: viewer

record GitHubPaging =
  paging_more :: bool
  paging_cursor :: "string option"

record GitHubCommitsResult =
  result_values :: "GitHubCommit list"
  paging :: "GitHubPaging option"
  result_viewer :: viewer

text \<open>The options object handed to \<^verbatim>\<open>github.getCommits\<close>.\<close>

record GetCommitsOptions =
  req_all :: "bool option"
  req_authors :: "string list option"
  req_after :: "string option"
  req_path :: "string option"
  req_limit :: int
  req_since :: "string option"

text \<open>One call of \<^verbatim>\<open>github.getCommits\<close>: token, owner, repository, revision, options.\<close>

type_synonym GetCommitsCall = "string \<times> string \<times> string \<times> string \<times> GetCommitsOptions"

record GitHubPageInfo =
  hasNextPage :: bool
  endCursor :: "string option"

record GitHubSearchResult =
  search_values :: "GitHubCommit list"
  pageInfo :: "GitHubPageInfo option"

record GitHubComparison =
  comparison_status :: "string option"
  ahead_by :: int
  behind_by :: int

record RepositoryContext =
  owner :: string
  repo_name :: string
  accessToken :: string
  account_label :: "string option"
  getRevision :: "error + string"

subsection \<open>The commit model\<close>

text \<open>
  Modelled from the spec: the enumeration \<^verbatim>\<open>GitFileIndexStatus\<close> is not part of the
  source file, which names only its member \<^verbatim>\<open>Modified\<close>; the spec lists Added, Modified,
  Deleted, Renamed, Copied and leaves the list open.
\<close>

datatype GitFileIndexStatus = Modified | Added | Deleted | Renamed | Copied | OtherStatus string

record GitFileChangeStats =
  fc_additions :: int
  fc_deletions :: int
  fc_changes :: int

record GitFileChange =
  fc_repoPath :: string
  fc_path :: string
  fc_status :: GitFileIndexStatus
  fc_originalPath :: "string option"
  fc_previousSha :: "string option"
  fc_stats :: "GitFileChangeStats option"

record GitCommitIdentity =
  identity_name :: string
  identity_email :: string
  identity_date :: string
  identity_avatarUrl :: "string option"

record GitCommitFilteredFiles =
  filtered_files :: "GitFileChange list option"
  pathspec :: string

record GitCommitFileset =
  fileset_files :: "GitFileChange list option"
  filtered :: "GitCommitFilteredFiles option"

record GitCommitStats =
  stats_files :: int
  stats_additions :: int
  stats_deletions :: int

text \<open>
  Modelled from the spec: the class \<^verbatim>\<open>GitCommit\<close> is not part of the source file. The
  spec's Commit has one identity, its id; the source passes it as the constructor's third
  argument and reads it back as \<^verbatim>\<open>sha\<close> and as \<^verbatim>\<open>ref\<close>. The other fields are the
  constructor's arguments.
\<close>

record GitCommit =
  commit_repoPath :: string
  commit_sha :: string
  ref :: string
  author :: GitCommitIdentity
  committer :: GitCommitIdentity
  summary :: string
  parents :: "string list"
  message :: string
  fileset :: "GitCommitFileset option"
  stats :: GitCommitStats

definition new_GitCommit ::
  "string \<Rightarrow> string \<Rightarrow> GitCommitIdentity \<Rightarrow> GitCommitIdentity \<Rightarrow> string \<Rightarrow> string list \<Rightarrow> string \<Rightarrow>
   GitCommitFileset option \<Rightarrow> GitCommitStats \<Rightarrow> GitCommit" where
  "new_GitCommit rp s a c sm ps msg fs st =
     \<lparr>commit_repoPath = rp, commit_sha = s, ref = s, author = a, committer = c, summary = sm,
      parents = ps, message = msg, fileset = fs, stats = st\<rparr>"

subsection \<open>Options, closures and the log\<close>

datatype merges = MergesFlag bool | MergesMode string

fun truthy_merges :: "merges option \<Rightarrow> bool" where
  "truthy_merges None = False"
| "truthy_merges (Some (MergesFlag b)) = b"
| "truthy_merges (Some (MergesMode s)) = (s \<noteq> [])"

fun merges_toString :: "merges \<Rightarrow> string" where
  "merges_toString (MergesFlag b) = (if b then ''true'' else ''false'')"
| "merges_toString (MergesMode s) = s"

text \<open>
  \<^verbatim>\<open>GitLogOptions\<close> and \<^verbatim>\<open>GitLogForPathOptions\<close>: the fields the source file reads.
  An absent options object is the record with every field \<open>None\<close>.
\<close>

record GitLogOptions =
  opt_all :: "bool option"
  opt_authors :: "string list option"
  opt_cursor :: "string option"
  opt_filters :: "string list option"
  opt_isFolder :: "bool option"
  opt_limit :: "int option"
  opt_merges :: "merges option"
  opt_ordering :: "string option"
  opt_range :: "(nat \<times> nat) option"
  opt_renames :: "bool option"
  opt_since :: "string option"
  opt_until :: "string option"

text \<open>\<^verbatim>\<open>search.naturalLanguage\<close>: a flag, or an object that may hold a processed query.\<close>

datatype naturalLanguage = NLFlag bool | NLObject "string option"

text \<open>
  The four flags are optional properties: \<open>None\<close> is a missing key, \<open>Some None\<close> a key
  that is present with the value \<^verbatim>\<open>undefined\<close>.
\<close>

record SearchQuery =
  search_query :: string
  matchAll :: "bool option option"
  matchCase :: "bool option option"
  matchRegex :: "bool option option"
  matchWholeWord :: "bool option option"
  naturalLanguage :: "naturalLanguage option"

text \<open>
  The closure \<^verbatim>\<open>log.more\<close> (field \<open>moreFn\<close>: the name \<open>more\<close> is taken by the record
  package), by the function that built it and the arguments it captured besides the log
  it is attached to.
\<close>

datatype more_closure =
    LogMoreFn "string option" GitLogOptions
  | LogForPathMoreFn string "string option" GitLogOptions
  | SearchCommitsMoreFn SearchQuery string GitLogOptions

text \<open>The closure \<^verbatim>\<open>log.query\<close>: the operation it re-issues and the captured arguments.\<close>

datatype query_closure =
    LogQuery string "string option" GitLogOptions
  | LogForPathQuery string string "string option" GitLogOptions

record GitLog =
  repoPath :: string
  commits :: "(string \<times> GitCommit) list"
  sha :: "string option"
  count :: nat
  limit :: "int option"
  hasMore :: bool
  startingCursor :: "string option"
  endingCursor :: "string option"
  pagedCommits :: "(string \<times> GitCommit) list option"
  query :: "query_closure option"
  moreFn :: "more_closure option"

text \<open>The argument of \<^verbatim>\<open>more\<close>: a number, or an object \<^verbatim>\<open>{ until }\<close>.\<close>

datatype more_arg = Limit int | Until string

subsection \<open>Collaborators and the observable state\<close>

text \<open>
  The functions the source file calls and does not define, as the fields of a record.
  \<^item> \<open>getPagingLimit\<close>, \<open>getRelativePath\<close>, \<open>ensureRepositoryContext\<close>: methods of the provider.
  \<^item> \<open>getProviderRelativePath path repoPath\<close>: the expression
    \<^verbatim>\<open>getRelativePath(getAbsoluteUri(path, repoPath), remotehub.getProviderRootUri(uri))\<close>.
  \<^item> \<open>getTreeEntryForRevision\<close>: the \<^verbatim>\<open>type\<close> of the tree entry, if there is one; it may throw.
  \<^item> \<open>github_getCommits\<close>, \<open>github_getCommit\<close>, \<open>github_getComparison\<close>,
    \<open>github_searchCommits\<close>: the remote client; each may throw.
  \<^item> \<open>GitUri_fromFile\<close>: the URI under which the document tracker finds or adds the document.
  \<^item> \<open>createUncommittedChangesCommit repoPath rev\<close>: the commit built for uncommitted
    changes, with the current date and user; obtaining the user may throw.
  \<^item> \<open>largeNumber_toString\<close>: the text the language gives an integral number beyond the
    safe integers, where it rounds the digits and, from \<^verbatim>\<open>1e21\<close> on, writes an exponent.
  \<^item> the others: imported utilities.
\<close>

record env =
  getPagingLimit :: "int option \<Rightarrow> int"
  getRelativePath :: "string \<Rightarrow> string \<Rightarrow> string"
  getProviderRelativePath :: "string \<Rightarrow> string \<Rightarrow> string"
  isFolderGlob :: "string \<Rightarrow> bool"
  stripFolderGlob :: "string \<Rightarrow> string"
  getTreeEntryForRevision :: "string \<Rightarrow> string \<Rightarrow> string \<Rightarrow> error + string option"
  stripOrigin :: "string \<Rightarrow> string"
  fromCommitFileStatus :: "string option \<Rightarrow> GitFileIndexStatus option"
  ensureRepositoryContext :: "string \<Rightarrow> error + RepositoryContext option"
  github_getCommits :: "GetCommitsCall \<Rightarrow> error + GitHubCommitsResult"
  github_getCommit :: "string \<Rightarrow> string \<Rightarrow> string \<Rightarrow> string \<Rightarrow> error + GitHubCommit option"
  github_getComparison :: "string \<Rightarrow> string \<Rightarrow> string \<Rightarrow> string \<Rightarrow> error + GitHubComparison option"
  github_searchCommits ::
    "string \<Rightarrow> string \<Rightarrow> string option \<Rightarrow> int \<Rightarrow> string option \<Rightarrow> error + GitHubSearchResult option"
  createRevisionRange :: "string \<Rightarrow> string \<Rightarrow> string \<Rightarrow> string"
  GitUri_fromFile :: "string \<Rightarrow> string \<Rightarrow> string option \<Rightarrow> string"
  isUncommitted :: "string \<Rightarrow> bool"
  createUncommittedChangesCommit :: "string \<Rightarrow> string \<Rightarrow> error + GitCommit"
  processNaturalLanguageToSearchQuery :: "SearchQuery \<Rightarrow> string \<Rightarrow> SearchQuery"
  parseSearchQuery :: "SearchQuery \<Rightarrow> (string \<times> string list) list"
  getQueryArgsFromSearchQuery :: "SearchQuery \<Rightarrow> (string \<times> string list) list \<Rightarrow> string \<Rightarrow> string list"
  largeNumber_toString :: "int \<Rightarrow> string"

text \<open>
  Modelled from the spec: \<^verbatim>\<open>CachedLog\<close> and \<^verbatim>\<open>GitDocumentState\<close> are declared outside
  the source file. A cache entry is a future of a log with an optional failure message; the
  future is held by the value it settles to. The document state is its log cache, read by
  \<^verbatim>\<open>getLog(key)\<close> and written by \<^verbatim>\<open>setLog(key, value)\<close>.
\<close>

record CachedLog =
  item :: "GitLog option"
  errorMessage :: "string option"

type_synonym GitDocumentState = "string \<rightharpoonup> CachedLog"

text \<open>
  The state the operations read and write: for every tracked document (by the URI the
  tracker is asked for) its \<^verbatim>\<open>state\<close>, and the calls of \<^verbatim>\<open>github.getCommits\<close> made so
  far, oldest first. \<^verbatim>\<open>github.getCommits\<close> is the only remote call of the log operations;
  the tree lookup of \<^verbatim>\<open>getLogForPath\<close> belongs to another provider and is a function of
  the environment.
\<close>

record world =
  docs :: "string \<Rightarrow> GitDocumentState option"
  calls :: "GetCommitsCall list"

subsection \<open>Building commits from remote records\<close>

definition orZero :: "int option \<Rightarrow> int" where
  "orZero x = (case x of None \<Rightarrow> 0 | Some n \<Rightarrow> n)"

text \<open>
  \<^verbatim>\<open>const { viewer = session.account.label } = result\<close>: the label stands in for a
  missing \<^verbatim>\<open>viewer\<close>, not for \<^verbatim>\<open>null\<close>. The result is read by \<^verbatim>\<open>viewer != null\<close> only,
  so \<open>None\<close> is \<^verbatim>\<open>null\<close> or \<^verbatim>\<open>undefined\<close>.
\<close>

definition viewerOf :: "viewer \<Rightarrow> string option \<Rightarrow> string option" where
  "viewerOf v label =
     (case v of
        ViewerUndefined \<Rightarrow> label
      | ViewerNull \<Rightarrow> None
      | Viewer n \<Rightarrow> Some n)"

text \<open>\<^verbatim>\<open>viewer != null && name === viewer ? 'You' : name\<close>\<close>

definition viewerName :: "string option \<Rightarrow> string \<Rightarrow> string" where
  "viewerName viewer n = (if viewer \<noteq> None \<and> Some n = viewer then ''You'' else n)"

text \<open>\<^verbatim>\<open>message.split('\n', 1)[0]\<close>\<close>

definition firstLine :: "string \<Rightarrow> string" where
  "firstLine m = takeWhile (\<lambda>c. c \<noteq> CHR 0x0A) m"

definition toGitFileChange :: "env \<Rightarrow> string \<Rightarrow> GitHubCommitFile \<Rightarrow> GitFileChange" where
  "toGitFileChange env rp f =
     \<lparr>fc_repoPath = rp,
      fc_path = (case filename f of None \<Rightarrow> [] | Some p \<Rightarrow> p),
      fc_status = (case fromCommitFileStatus env (gh_status f) of None \<Rightarrow> Modified | Some st \<Rightarrow> st),
      fc_originalPath = previous_filename f,
      fc_previousSha = None,
      fc_stats = Some \<lparr>fc_additions = orZero (gh_file_additions f),
                       fc_deletions = orZero (gh_file_deletions f),
                       fc_changes = orZero (gh_file_changes f)\<rparr>\<rparr>"

text \<open>The \<^verbatim>\<open>new GitCommit(...)\<close> expression shared by the operations, up to the file set.\<close>

definition toGitCommit ::
  "string \<Rightarrow> string option \<Rightarrow> GitHubCommit \<Rightarrow> GitCommitFileset option \<Rightarrow> GitCommit" where
  "toGitCommit rp viewer commit fs =
     new_GitCommit rp (oid commit)
       \<lparr>identity_name = viewerName viewer (gh_name (gh_author commit)),
        identity_email = gh_email (gh_author commit),
        identity_date = gh_date (gh_author commit),
        identity_avatarUrl = gh_avatarUrl (gh_author commit)\<rparr>
       \<lparr>identity_name = viewerName viewer (gh_name (gh_committer commit)),
        identity_email = gh_email (gh_committer commit),
        identity_date = gh_date (gh_committer commit),
        identity_avatarUrl = None\<rparr>
       (firstLine (gh_message commit))
       (gh_parents commit)
       (gh_message commit)
       fs
       \<lparr>stats_files = orZero (changedFiles commit),
        stats_additions = orZero (gh_additions commit),
        stats_deletions = orZero (gh_deletions commit)\<rparr>"

text \<open>The file set of \<^verbatim>\<open>getLog\<close> and \<^verbatim>\<open>searchCommits\<close>: all files, when the record has any.\<close>

definition completeFileset :: "env \<Rightarrow> string \<Rightarrow> GitHubCommit \<Rightarrow> GitCommitFileset option" where
  "completeFileset env rp commit =
     (case gh_files commit of
        None \<Rightarrow> None
      | Some fs \<Rightarrow> Some \<lparr>fileset_files = Some (map (toGitFileChange env rp) fs), filtered = None\<rparr>)"

text \<open>
  One turn of the loop over \<^verbatim>\<open>result.values\<close>: a commit is built and stored only when
  its id is not in the map yet.
\<close>

definition addCommit ::
  "(GitHubCommit \<Rightarrow> GitCommit) \<Rightarrow> (string \<times> GitCommit) list \<Rightarrow> GitHubCommit \<Rightarrow> (string \<times> GitCommit) list" where
  "addCommit mk cs commit =
     (case map_of cs (oid commit) of
        None \<Rightarrow> map_set cs (oid commit) (mk commit)
      | Some c \<Rightarrow> cs)"

definition collectCommits ::
  "(GitHubCommit \<Rightarrow> GitCommit) \<Rightarrow> GitHubCommit list \<Rightarrow> (string \<times> GitCommit) list" where
  "collectCommits mk vals = foldl (addCommit mk) [] vals"

text \<open>\<^verbatim>\<open>!rev || rev === 'HEAD' ? (await metadata.getRevision()).revision : rev\<close>\<close>

definition resolveRevision :: "RepositoryContext \<Rightarrow> string option \<Rightarrow> error + string" where
  "resolveRevision ctx rv =
     (case rv of
        None \<Rightarrow> getRevision ctx
      | Some r \<Rightarrow> if r = [] \<or> r = ''HEAD'' then getRevision ctx else Inr r)"

definition recordCall :: "GetCommitsCall \<Rightarrow> world \<Rightarrow> world" where
  "recordCall c w = w\<lparr>calls := calls w @ [c]\<rparr>"

subsection \<open>getLog and its continuation\<close>

text \<open>
  \<^verbatim>\<open>getLog\<close> (lines 284-390). Everything after the paging limit runs inside
  \<^verbatim>\<open>try\<close>; any failure there gives \<^verbatim>\<open>undefined\<close>.
\<close>

definition getLog ::
  "env \<Rightarrow> string option \<Rightarrow> string option \<Rightarrow> GitLogOptions \<Rightarrow> world \<Rightarrow> GitLog option \<times> world" where
  "getLog env repoPath0 rv options w =
     (case repoPath0 of
        None \<Rightarrow> (None, w)
      | Some rp \<Rightarrow>
          let lim = getPagingLimit env (opt_limit options) in
          (case ensureRepositoryContext env rp of
             Inl e \<Rightarrow> (None, w)
           | Inr None \<Rightarrow> (None, w)
           | Inr (Some ctx) \<Rightarrow>
               (case resolveRevision ctx rv of
                  Inl e \<Rightarrow> (None, w)
                | Inr rv' \<Rightarrow>
                    let call = (accessToken ctx, owner ctx, repo_name ctx, stripOrigin env rv',
                                \<lparr>req_all = opt_all options, req_authors = opt_authors options,
                                 req_after = opt_cursor options, req_path = None, req_limit = lim,
                                 req_since = (if truthy_string (opt_since options) then opt_since options else None)\<rparr>);
                        w' = recordCall call w
                    in (case github_getCommits env call of
                          Inl e \<Rightarrow> (None, w')
                        | Inr result \<Rightarrow>
                            let viewer = viewerOf (result_viewer result) (account_label ctx);
                                cs = collectCommits (\<lambda>c. toGitCommit rp viewer c (completeFileset env rp c))
                                       (result_values result);
                                log = \<lparr>repoPath = rp, commits = cs, sha = Some rv', count = length cs,
                                       limit = Some lim,
                                       hasMore = (case paging result of None \<Rightarrow> False | Some pg \<Rightarrow> paging_more pg),
                                       startingCursor = None,
                                       endingCursor = (case paging result of None \<Rightarrow> None | Some pg \<Rightarrow> paging_cursor pg),
                                       pagedCommits = None,
                                       query = Some (LogQuery rp (Some rv') options),
                                       moreFn = None\<rparr>
                            in (Some (if hasMore log then log\<lparr>moreFn := Some (LogMoreFn (Some rv') options)\<rparr> else log),
                                w')))))"

text \<open>The two readings of the argument of \<^verbatim>\<open>more\<close>.\<close>

definition moreUntil_of :: "more_arg option \<Rightarrow> string option" where
  "moreUntil_of a = (case a of Some (Until u) \<Rightarrow> Some u | _ \<Rightarrow> None)"

definition moreLimit_of :: "more_arg option \<Rightarrow> int option" where
  "moreLimit_of a = (case a of Some (Limit n) \<Rightarrow> Some n | _ \<Rightarrow> None)"

text \<open>\<^verbatim>\<open>moreUntil && some(log.commits.values(), c => c.ref === moreUntil)\<close>\<close>

definition untilReached :: "GitLog \<Rightarrow> string option \<Rightarrow> bool" where
  "untilReached log u =
     (case u of
        None \<Rightarrow> False
      | Some x \<Rightarrow> x \<noteq> [] \<and> list_ex (\<lambda>e. ref (snd e) = x) (commits log))"

text \<open>\<^verbatim>\<open>last(log.commits)?.[0]\<close>\<close>

definition lastKey :: "(string \<times> GitCommit) list \<Rightarrow> string option" where
  "lastKey cs = (if cs = [] then None else Some (fst (last cs)))"

text \<open>
  The function returned by \<^verbatim>\<open>getLogMoreFn(log, rev, options)\<close> (lines 392-462), applied to
  its argument.
\<close>

definition getLogMoreFn ::
  "env \<Rightarrow> GitLog \<Rightarrow> string option \<Rightarrow> GitLogOptions \<Rightarrow> more_arg option \<Rightarrow> world \<Rightarrow> GitLog \<times> world" where
  "getLogMoreFn env log rv options arg w =
     (let moreUntil = moreUntil_of arg in
      if untilReached log moreUntil then (log, w)
      else
        let moreLimit = getPagingLimit env (moreLimit_of arg) in
        (case getLog env (Some (repoPath log)) rv
                (options\<lparr>opt_limit := Some moreLimit, opt_cursor := endingCursor log\<rparr>) w of
           (None, w') \<Rightarrow> (log\<lparr>hasMore := False, moreFn := None\<rparr>, w')
         | (Some moreLog, w') \<Rightarrow>
             let cs = new_Map (commits log @ commits moreLog);
                 mergedLog =
                   \<lparr>repoPath = repoPath log, commits = cs, sha = sha log, count = length cs,
                    limit = (if moreUntil = None then Some (orZero (limit log) + moreLimit) else None),
                    hasMore = (if moreUntil = None then hasMore moreLog else True),
                    startingCursor = lastKey (commits log),
                    endingCursor = endingCursor moreLog,
                    pagedCommits = Some (foldl map_delete (commits moreLog) (map fst (commits log))),
                    query = query log,
                    moreFn = None\<rparr>
             in (if hasMore mergedLog then mergedLog\<lparr>moreFn := Some (LogMoreFn rv options)\<rparr> else mergedLog,
                 w')))"

subsection \<open>getLogForPath: options, cache key and cache lookup\<close>

text \<open>\<^verbatim>\<open>const emptyPromise = Promise.resolve(undefined)\<close> (line 40), by the value it holds.\<close>

definition emptyPromise :: "GitLog option" where
  "emptyPromise = None"

definition truthy_bool :: "bool option \<Rightarrow> bool" where
  "truthy_bool b = (b = Some True)"

definition truthy_number :: "int option \<Rightarrow> bool" where
  "truthy_number n = (case n of None \<Rightarrow> False | Some i \<Rightarrow> i \<noteq> 0)"

text \<open>The options \<^verbatim>\<open>getLogForPath\<close> works with (lines 482-487).\<close>

definition pathOptions :: "env \<Rightarrow> GitLogOptions \<Rightarrow> GitLogOptions" where
  "pathOptions env options =
     options\<lparr>opt_all := Some False,
             opt_limit := Some (getPagingLimit env (opt_limit options)),
             opt_renames := Some False\<rparr>"

text \<open>
  Lines 489-495: a folder glob is stripped; otherwise an unknown \<^verbatim>\<open>isFolder\<close> is read off
  the tree entry of the revision (\<^verbatim>\<open>rev || 'HEAD'\<close>). The tree lookup is awaited outside
  any \<^verbatim>\<open>try\<close>.
\<close>

definition resolveFolder ::
  "env \<Rightarrow> string \<Rightarrow> string \<Rightarrow> string option \<Rightarrow> GitLogOptions \<Rightarrow> error + (string \<times> GitLogOptions)" where
  "resolveFolder env rp relativePath rv options =
     (if isFolderGlob env relativePath
      then Inr (stripFolderGlob env relativePath, options\<lparr>opt_isFolder := Some True\<rparr>)
      else if opt_isFolder options = None
      then (case getTreeEntryForRevision env rp
                   (case rv of None \<Rightarrow> ''HEAD'' | Some r \<Rightarrow> if r = [] then ''HEAD'' else r) relativePath of
              Inl e \<Rightarrow> Inl e
            | Inr t \<Rightarrow> Inr (relativePath, options\<lparr>opt_isFolder := Some (t = Some ''tree'')\<rparr>))
      else Inr (relativePath, options))"

text \<open>
  The text a template literal gives an integral number: its decimal digits for a safe
  integer (at most \<open>2^53\<close> in absolute value); beyond, what the language prints.
\<close>

definition number_toString :: "env \<Rightarrow> int \<Rightarrow> string" where
  "number_toString env i =
     (if - 9007199254740992 \<le> i \<and> i \<le> 9007199254740992
      then (if i < 0 then ''-'' @ string_of_nat (nat (- i)) else string_of_nat (nat i))
      else largeNumber_toString env i)"

text \<open>Lines 497-528; \<^verbatim>\<open>useCaching\<close> is constantly true.\<close>

definition cacheKeyOf :: "env \<Rightarrow> string option \<Rightarrow> GitLogOptions \<Rightarrow> string option" where
  "cacheKeyOf env rv options =
     (if \<not> truthy_bool (opt_isFolder options) \<and> opt_authors options = None \<and> opt_cursor options = None \<and>
         opt_filters options = None \<and> opt_range options = None \<and> opt_since options = None \<and>
         opt_until options = None
      then Some (''log''
             @ (case rv of None \<Rightarrow> [] | Some r \<Rightarrow> '':'' @ r)
             @ (if truthy_bool (opt_all options) then '':all'' else [])
             @ (case opt_limit options of
                  None \<Rightarrow> []
                | Some n \<Rightarrow> if n \<noteq> 0 then '':n'' @ number_toString env n else [])
             @ (case opt_merges options of
                  None \<Rightarrow> []
                | Some m \<Rightarrow> if truthy_merges (Some m) then '':merges='' @ merges_toString m else [])
             @ (case opt_ordering options of
                  None \<Rightarrow> []
                | Some ord \<Rightarrow> if ord \<noteq> [] then '':ordering='' @ ord else [])
             @ (if truthy_bool (opt_renames options) then '':follow'' else []))
      else None)"

text \<open>
  The callback given to \<^verbatim>\<open>filterMap\<close> (lines 555-573) with its two variables \<^verbatim>\<open>skip\<close>
  and \<^verbatim>\<open>i\<close>, run over the entries of the cached log.
\<close>

fun copyFrom :: "string \<Rightarrow> int option \<Rightarrow> bool \<Rightarrow> int \<Rightarrow> (string \<times> 'v) list \<Rightarrow> (string \<times> 'v) list" where
  "copyFrom r lim skip i [] = []"
| "copyFrom r lim skip i ((s, c) # es) =
     (if skip \<and> s \<noteq> r then copyFrom r lim True i es
      else if (case lim of None \<Rightarrow> False | Some n \<Rightarrow> i + 1 > n)
           then copyFrom r lim False (i + 1) es
           else (s, c) # copyFrom r lim False (i + 1) es)"

text \<open>Lines 576-584: the copy of the cached log starting at the requested commit.\<close>

definition partialLog :: "string \<Rightarrow> string \<Rightarrow> string \<Rightarrow> GitLogOptions \<Rightarrow> GitLog \<Rightarrow> GitLog" where
  "partialLog rp pathOrUri r options log =
     (let cs = new_Map (copyFrom r (opt_limit options) True 0 (commits log))
      in log\<lparr>limit := opt_limit options, count := length cs, commits := cs,
             query := Some (LogForPathQuery rp pathOrUri (Some r) options)\<rparr>)"

text \<open>
  Lines 533-590, for a document whose \<^verbatim>\<open>state\<close> exists: \<open>Some\<close> of what is returned from
  the cache, \<open>None\<close> on a miss.
\<close>

definition lookupCached ::
  "string \<Rightarrow> string \<Rightarrow> string option \<Rightarrow> GitLogOptions \<Rightarrow> string \<Rightarrow> GitDocumentState \<Rightarrow> GitLog option option" where
  "lookupCached rp pathOrUri rv options cacheKey st =
     (case st cacheKey of
        Some cachedLog \<Rightarrow> Some (item cachedLog)
      | None \<Rightarrow>
          if rv \<noteq> None \<or> opt_limit options \<noteq> None
          then (case st (''log'' @ (if truthy_bool (opt_renames options) then '':follow'' else [])) of
                  None \<Rightarrow> None
                | Some cachedLog \<Rightarrow>
                    (case rv of
                       None \<Rightarrow> Some (item cachedLog)
                     | Some r \<Rightarrow>
                         (case item cachedLog of
                            None \<Rightarrow> None
                          | Some log \<Rightarrow>
                              if \<not> hasMore log \<and> map_has (commits log) r
                              then Some (Some (partialLog rp pathOrUri r options log))
                              else None)))
          else None)"

text \<open>\<^verbatim>\<open>doc.state ??= new GitDocumentState()\<close>\<close>

definition ensureState :: "string \<Rightarrow> world \<Rightarrow> world" where
  "ensureState d w =
     w\<lparr>docs := (docs w)(d := Some (case docs w d of None \<Rightarrow> Map.empty | Some st \<Rightarrow> st))\<rparr>"

text \<open>\<^verbatim>\<open>doc.state.setLog(cacheKey, value)\<close> under the guard \<^verbatim>\<open>doc?.state != null\<close>.\<close>

definition setLog :: "string \<Rightarrow> string \<Rightarrow> CachedLog \<Rightarrow> world \<Rightarrow> world" where
  "setLog d key v w =
     w\<lparr>docs := (docs w)(d := (case docs w d of None \<Rightarrow> None | Some st \<Rightarrow> Some (st(key \<mapsto> v))))\<rparr>"

subsection \<open>getLogForPathCore\<close>

definition findIndex :: "('a \<Rightarrow> bool) \<Rightarrow> 'a list \<Rightarrow> nat option" where
  "findIndex P xs = (if list_ex P xs then Some (length (takeWhile (\<lambda>x. \<not> P x) xs)) else None)"

text \<open>
  Lines 676-712: the files of a commit and, for a single-file commit of a file query, the
  entry of the queried path replaced by one that carries the commit's own counts.
\<close>

definition pathFiles ::
  "env \<Rightarrow> string \<Rightarrow> string \<Rightarrow> GitLogOptions \<Rightarrow> GitHubCommit \<Rightarrow> GitFileChange list option" where
  "pathFiles env rp relativePath options commit =
     (case gh_files commit of
        None \<Rightarrow> None
      | Some fs \<Rightarrow>
          let files = map (toGitFileChange env rp) fs in
          if \<not> truthy_bool (opt_isFolder options) \<and> changedFiles commit = Some 1
          then (case findIndex (\<lambda>f. fc_path f = relativePath) files of
                  None \<Rightarrow> Some files
                | Some index \<Rightarrow>
                    Some (files[index :=
                      \<lparr>fc_repoPath = rp, fc_path = relativePath, fc_status = Modified,
                       fc_originalPath = None, fc_previousSha = None,
                       fc_stats = (if changedFiles commit = Some 1
                                   then Some \<lparr>fc_additions = orZero (gh_additions commit),
                                              fc_deletions = orZero (gh_deletions commit),
                                              fc_changes = 0\<rparr>
                                   else None)\<rparr>]))
          else Some files)"

text \<open>
  \<^verbatim>\<open>getLogForPathCore\<close> (lines 630-755). There is no \<^verbatim>\<open>try\<close> here: a failure of the
  context, of the revision or of the fetch rejects the promise.
\<close>

definition getLogForPathCore ::
  "env \<Rightarrow> string option \<Rightarrow> string \<Rightarrow> string option \<Rightarrow> GitLogOptions \<Rightarrow> world \<Rightarrow>
   (error + GitLog option) \<times> world" where
  "getLogForPathCore env repoPath0 path rv options w =
     (case repoPath0 of
        None \<Rightarrow> (Inr None, w)
      | Some rp \<Rightarrow>
          let lim = getPagingLimit env (opt_limit options) in
          (case ensureRepositoryContext env rp of
             Inl e \<Rightarrow> (Inl e, w)
           | Inr None \<Rightarrow> (Inr None, w)
           | Inr (Some ctx) \<Rightarrow>
               let relativePath = getProviderRelativePath env path rp in
               (case resolveRevision ctx rv of
                  Inl e \<Rightarrow> (Inl e, w)
                | Inr rv' \<Rightarrow>
                    let call = (accessToken ctx, owner ctx, repo_name ctx, stripOrigin env rv',
                                \<lparr>req_all = opt_all options, req_authors = None,
                                 req_after = opt_cursor options, req_path = Some relativePath, req_limit = lim,
                                 req_since = (if truthy_string (opt_since options) then opt_since options else None)\<rparr>);
                        w' = recordCall call w
                    in (case github_getCommits env call of
                          Inl e \<Rightarrow> (Inl e, w')
                        | Inr result \<Rightarrow>
                            let viewer = viewerOf (result_viewer result) (account_label ctx);
                                cs = collectCommits
                                       (\<lambda>c. toGitCommit rp viewer c
                                          (Some \<lparr>fileset_files = None,
                                                 filtered = Some \<lparr>filtered_files = pathFiles env rp relativePath options c,
                                                                  pathspec = relativePath\<rparr>\<rparr>))
                                       (result_values result);
                                log = \<lparr>repoPath = rp, commits = cs, sha = Some rv', count = length cs,
                                       limit = Some lim,
                                       hasMore = (case paging result of None \<Rightarrow> False | Some pg \<Rightarrow> paging_more pg),
                                       startingCursor = None,
                                       endingCursor = (case paging result of None \<Rightarrow> None | Some pg \<Rightarrow> paging_cursor pg),
                                       pagedCommits = None,
                                       query = Some (LogForPathQuery rp path (Some rv') options),
                                       moreFn = None\<rparr>
                            in (Inr (Some (if hasMore log
                                           then log\<lparr>moreFn := Some (LogForPathMoreFn path (Some rv') options)\<rparr>
                                           else log)),
                                w')))))"

subsection \<open>getLogForPath and its continuation\<close>

text \<open>
  \<^verbatim>\<open>getLogForPath\<close> (lines 465-628). On a miss the promise of \<^verbatim>\<open>getLogForPathCore\<close>
  with its \<^verbatim>\<open>catch\<close> handler is stored under the key ("Cache add"); when the core
  rejects, the handler then stores the empty promise and the message ("Cache replace").
\<close>

definition getLogForPath ::
  "env \<Rightarrow> string option \<Rightarrow> string \<Rightarrow> string option \<Rightarrow> GitLogOptions \<Rightarrow> world \<Rightarrow>
   (error + GitLog option) \<times> world" where
  "getLogForPath env repoPath0 pathOrUri rv options0 w =
     (case repoPath0 of
        None \<Rightarrow> (Inr None, w)
      | Some rp \<Rightarrow>
          let relativePath0 = getRelativePath env pathOrUri rp in
          if rp = relativePath0
          then (Inl (Error (''Path cannot match the repository path; path='' @ relativePath0)), w)
          else
            (case resolveFolder env rp relativePath0 rv (pathOptions env options0) of
               Inl e \<Rightarrow> (Inl e, w)
             | Inr (relativePath, options) \<Rightarrow>
                 let cacheKey = cacheKeyOf env rv options;
                     d = GitUri_fromFile env relativePath rp rv
                 in (case (case cacheKey of
                             None \<Rightarrow> None
                           | Some key \<Rightarrow>
                               (case docs w d of
                                  None \<Rightarrow> None
                                | Some st \<Rightarrow> lookupCached rp pathOrUri rv options key st)) of
                       Some cached \<Rightarrow> (Inr cached, w)
                     | None \<Rightarrow>
                         let w1 = (if cacheKey \<noteq> None then ensureState d w else w) in
                         (case getLogForPathCore env (Some rp) relativePath rv options w1 of
                            (r, w2) \<Rightarrow>
                              let settled = (case r of Inl e \<Rightarrow> (if cacheKey \<noteq> None then emptyPromise else None)
                                                     | Inr v \<Rightarrow> v)
                              in (case cacheKey of
                                    None \<Rightarrow> (Inr settled, w2)
                                  | Some key \<Rightarrow>
                                      let w3 = setLog d key \<lparr>item = settled, errorMessage = None\<rparr> w2
                                      in (case r of
                                            Inr v \<Rightarrow> (Inr settled, w3)
                                          | Inl e \<Rightarrow>
                                              (Inr settled,
                                               setLog d key \<lparr>item = emptyPromise,
                                                             errorMessage = Some (toString e)\<rparr> w3)))))))"

text \<open>
  The function returned by \<^verbatim>\<open>getLogForPathMoreFn(log, relativePath, rev, options)\<close>
  (lines 757-815), applied to its argument. The call of \<^verbatim>\<open>getLogForPath\<close> is awaited
  outside any \<^verbatim>\<open>try\<close>.
\<close>

definition getLogForPathMoreFn ::
  "env \<Rightarrow> GitLog \<Rightarrow> string \<Rightarrow> string option \<Rightarrow> GitLogOptions \<Rightarrow> more_arg option \<Rightarrow> world \<Rightarrow>
   (error + GitLog) \<times> world" where
  "getLogForPathMoreFn env log relativePath rv options arg w =
     (let moreUntil = moreUntil_of arg in
      if untilReached log moreUntil then (Inr log, w)
      else
        let moreLimit = getPagingLimit env (moreLimit_of arg) in
        (case getLogForPath env (Some (repoPath log)) relativePath rv
                (options\<lparr>opt_limit := Some (if moreUntil = None then moreLimit else 0),
                         opt_cursor := endingCursor log\<rparr>) w of
           (Inl e, w') \<Rightarrow> (Inl e, w')
         | (Inr None, w') \<Rightarrow> (Inr (log\<lparr>hasMore := False, moreFn := None\<rparr>), w')
         | (Inr (Some moreLog), w') \<Rightarrow>
             let cs = new_Map (commits log @ commits moreLog);
                 mergedLog =
                   \<lparr>repoPath = repoPath log, commits = cs, sha = sha log, count = length cs,
                    limit = (if moreUntil = None then Some (orZero (limit log) + moreLimit) else None),
                    hasMore = (if moreUntil = None then hasMore moreLog else True),
                    startingCursor = None,
                    endingCursor = endingCursor moreLog,
                    pagedCommits = None,
                    query = query log,
                    moreFn = None\<rparr>
             in (Inr (if hasMore mergedLog
                      then mergedLog\<lparr>moreFn := Some (LogForPathMoreFn relativePath rv options)\<rparr>
                      else mergedLog),
                 w')))"

subsection \<open>isAncestorOf\<close>

text \<open>The \<^verbatim>\<open>switch\<close> on \<^verbatim>\<open>result?.status\<close> (lines 874-883).\<close>

definition ancestorStatus :: "string option \<Rightarrow> bool" where
  "ancestorStatus st =
     (case st of
        None \<Rightarrow> False
      | Some s \<Rightarrow>
          if s = ''ahead'' \<or> s = ''diverged'' then False
          else if s = ''identical'' \<or> s = ''behind'' then True
          else False)"

text \<open>
  \<^verbatim>\<open>isAncestorOf\<close> (lines 853-889). The repository context is destructured before the
  \<^verbatim>\<open>try\<close>: its failure, or a context that is \<^verbatim>\<open>null\<close>, rejects the promise. Only the
  comparison is inside the \<^verbatim>\<open>try\<close>.
\<close>

definition isAncestorOf :: "env \<Rightarrow> string option \<Rightarrow> string \<Rightarrow> string \<Rightarrow> error + bool" where
  "isAncestorOf env repoPath0 rev1 rev2 =
     (case repoPath0 of
        None \<Rightarrow> Inr False
      | Some rp \<Rightarrow>
          (case ensureRepositoryContext env rp of
             Inl e \<Rightarrow> Inl e
           | Inr None \<Rightarrow> Inl (TypeError ''Cannot destructure the repository context'')
           | Inr (Some ctx) \<Rightarrow>
               (case github_getComparison env (accessToken ctx) (owner ctx) (repo_name ctx)
                       (createRevisionRange env (stripOrigin env rev1) (stripOrigin env rev2) ''...'') of
                  Inl e \<Rightarrow> Inr False
                | Inr result \<Rightarrow>
                    Inr (ancestorStatus (case result of None \<Rightarrow> None | Some r \<Rightarrow> comparison_status r)))))"

subsection \<open>getCommit and searchCommits\<close>

text \<open>\<^verbatim>\<open>getCommit\<close> (lines 54-128); the whole body is inside \<^verbatim>\<open>try\<close>.\<close>

definition getCommit :: "env \<Rightarrow> string option \<Rightarrow> string \<Rightarrow> GitCommit option" where
  "getCommit env repoPath0 rv =
     (case repoPath0 of
        None \<Rightarrow> None
      | Some rp \<Rightarrow>
          if isUncommitted env rv
          then (case createUncommittedChangesCommit env rp rv of Inl e \<Rightarrow> None | Inr c \<Rightarrow> Some c)
          else
            (case ensureRepositoryContext env rp of
               Inl e \<Rightarrow> None
             | Inr None \<Rightarrow> None
             | Inr (Some ctx) \<Rightarrow>
                 (case github_getCommit env (accessToken ctx) (owner ctx) (repo_name ctx) (stripOrigin env rv) of
                    Inl e \<Rightarrow> None
                  | Inr None \<Rightarrow> None
                  | Inr (Some commit) \<Rightarrow>
                      let viewer = viewerOf (gh_viewer commit) (account_label ctx)
                      in Some (toGitCommit rp viewer commit
                                 (Some \<lparr>fileset_files = map_option (map (toGitFileChange env rp)) (gh_files commit),
                                        filtered = None\<rparr>)))))"

record SearchCommitsResult =
  result_search :: SearchQuery
  result_log :: "GitLog option"

text \<open>
  Lines 910-916: the defaults of the search and the natural-language step. In the spread
  \<^verbatim>\<open>{ matchAll: false, ..., ...search }\<close> a key of \<^verbatim>\<open>search\<close> overrides the default
  whenever it is present, also with the value \<^verbatim>\<open>undefined\<close>.
\<close>

definition needsProcessing :: "naturalLanguage option \<Rightarrow> bool" where
  "needsProcessing nl =
     (case nl of
        None \<Rightarrow> False
      | Some (NLFlag b) \<Rightarrow> b
      | Some (NLObject q) \<Rightarrow> \<not> truthy_string q)"

definition prepareSearch :: "env \<Rightarrow> SearchQuery \<Rightarrow> string \<Rightarrow> SearchQuery" where
  "prepareSearch env search source =
     (let s = search\<lparr>matchAll := (case matchAll search of None \<Rightarrow> Some (Some False) | Some v \<Rightarrow> Some v),
                     matchCase := (case matchCase search of None \<Rightarrow> Some (Some False) | Some v \<Rightarrow> Some v),
                     matchRegex := (case matchRegex search of None \<Rightarrow> Some (Some True) | Some v \<Rightarrow> Some v),
                     matchWholeWord :=
                       (case matchWholeWord search of None \<Rightarrow> Some (Some False) | Some v \<Rightarrow> Some v)\<rparr>
      in if needsProcessing (naturalLanguage s) then processNaturalLanguageToSearchQuery env s source else s)"

text \<open>
  \<^verbatim>\<open>queryArgs.join('+').trim()\<close>. A \<open>char\<close> is a code unit below 256; of the white
  space and line terminators that \<^verbatim>\<open>String.prototype.trim\<close> strips, these are U+0009 to
  U+000D, U+0020 and U+00A0.
\<close>

fun join :: "string \<Rightarrow> string list \<Rightarrow> string" where
  "join sep [] = []"
| "join sep [x] = x"
| "join sep (x # y # ys) = x @ sep @ join sep (y # ys)"

definition isSpace :: "char \<Rightarrow> bool" where
  "isSpace c = (c \<in> set [CHR 0x09, CHR 0x0A, CHR 0x0B, CHR 0x0C, CHR 0x0D, CHR 0x20, CHR 0xA0])"

definition trim :: "string \<Rightarrow> string" where
  "trim s = rev (dropWhile isSpace (rev (dropWhile isSpace s)))"

definition searchSort :: "string option \<Rightarrow> string option" where
  "searchSort ord =
     (if ord = Some ''date'' then Some ''committer-date''
      else if ord = Some ''author-date'' then Some ''author-date''
      else None)"

text \<open>
  \<^verbatim>\<open>searchCommits\<close> (lines 899-1073). The natural-language step, the parsing of the search
  and the query arguments are collaborators taken as total functions.
\<close>

definition searchCommits ::
  "env \<Rightarrow> string option \<Rightarrow> SearchQuery \<Rightarrow> string \<Rightarrow> GitLogOptions \<Rightarrow> SearchCommitsResult" where
  "searchCommits env repoPath0 search0 source options =
     (case repoPath0 of
        None \<Rightarrow> \<lparr>result_search = search0, result_log = None\<rparr>
      | Some rp \<Rightarrow>
          let search = prepareSearch env search0 source;
              operations = parseSearchQuery env search
          in (case map_of operations ''commit:'' of
                Some (v # vs) \<Rightarrow>
                  (case getCommit env (Some rp) v of
                     None \<Rightarrow> \<lparr>result_search = search, result_log = None\<rparr>
                   | Some commit \<Rightarrow>
                       \<lparr>result_search = search,
                        result_log = Some
                          \<lparr>repoPath = rp, commits = new_Map [(commit_sha commit, commit)],
                           sha = Some (commit_sha commit), count = 1, limit = Some 1, hasMore = False,
                           startingCursor = None, endingCursor = None, pagedCommits = None,
                           query = None, moreFn = None\<rparr>\<rparr>)
              | _ \<Rightarrow>
                  let queryArgs = getQueryArgsFromSearchQuery env search operations rp in
                  if queryArgs = [] then \<lparr>result_search = search, result_log = None\<rparr>
                  else
                    let lim = getPagingLimit env (opt_limit options) in
                    (case ensureRepositoryContext env rp of
                       Inl e \<Rightarrow> \<lparr>result_search = search, result_log = None\<rparr>
                     | Inr None \<Rightarrow> \<lparr>result_search = search, result_log = None\<rparr>
                     | Inr (Some ctx) \<Rightarrow>
                         let q = ''repo:'' @ owner ctx @ ''/'' @ repo_name ctx @ ''+'' @ trim (join ''+'' queryArgs) in
                         (case github_searchCommits env (accessToken ctx) q (opt_cursor options) lim
                                 (searchSort (opt_ordering options)) of
                            Inl e \<Rightarrow> \<lparr>result_search = search, result_log = None\<rparr>
                          | Inr None \<Rightarrow> \<lparr>result_search = search, result_log = None\<rparr>
                          | Inr (Some result) \<Rightarrow>
                              let viewer = account_label ctx;
                                  cs = collectCommits (\<lambda>c. toGitCommit rp viewer c (completeFileset env rp c))
                                         (search_values result);
                                  log = \<lparr>repoPath = rp, commits = cs, sha = None, count = length cs,
                                         limit = Some lim,
                                         hasMore = (case pageInfo result of None \<Rightarrow> False | Some pg \<Rightarrow> hasNextPage pg),
                                         startingCursor = None,
                                         endingCursor = (case pageInfo result of None \<Rightarrow> None | Some pg \<Rightarrow> endCursor pg),
                                         pagedCommits = None,
                                         query = Some (LogQuery rp None options),
                                         moreFn = None\<rparr>
                              in \<lparr>result_search = search,
                                  result_log = Some (if hasMore log
                                                     then log\<lparr>moreFn := Some (SearchCommitsMoreFn search source options)\<rparr>
                                                     else log)\<rparr>))))"

text \<open>
  The function returned by \<^verbatim>\<open>searchCommitsCore.call(this, log)\<close> (lines 1027-1062),
  applied to its argument; \<open>search\<close>, \<open>source\<close> and \<open>options\<close> are the variables of the
  enclosing \<^verbatim>\<open>searchCommits\<close> call.
\<close>

definition searchCommitsCore ::
  "env \<Rightarrow> GitLog \<Rightarrow> SearchQuery \<Rightarrow> string \<Rightarrow> GitLogOptions \<Rightarrow> int option \<Rightarrow> GitLog" where
  "searchCommitsCore env log search source options arg =
     (let lim = getPagingLimit env arg in
      case result_log (searchCommits env (Some (repoPath log)) search source
                         (options\<lparr>opt_limit := Some lim, opt_cursor := endingCursor log\<rparr>)) of
        None \<Rightarrow> log\<lparr>hasMore := False, moreFn := None\<rparr>
      | Some moreLog \<Rightarrow>
          let cs = new_Map (commits log @ commits moreLog);
              mergedLog =
                \<lparr>repoPath = repoPath log, commits = cs, sha = sha log, count = length cs,
                 limit = Some (orZero (limit log) + lim),
                 hasMore = hasMore moreLog,
                 startingCursor = None,
                 endingCursor = endingCursor moreLog,
                 pagedCommits = None,
                 query = query log,
                 moreFn = None\<rparr>
          in if hasMore mergedLog
             then mergedLog\<lparr>moreFn := Some (SearchCommitsMoreFn search source options)\<rparr>
             else mergedLog)"

subsection \<open>The fetches\<close>

text \<open>
  The arguments that \<^verbatim>\<open>getLog\<close> hands to \<^verbatim>\<open>github.getCommits\<close> (lines 300-312), for the
  context and the resolved revision it works with.
\<close>

definition getLog_call :: "env \<Rightarrow> RepositoryContext \<Rightarrow> string \<Rightarrow> GitLogOptions \<Rightarrow> GetCommitsCall" where
  "getLog_call env ctx rv' options =
     (accessToken ctx, owner ctx, repo_name ctx, stripOrigin env rv',
      \<lparr>req_all = opt_all options, req_authors = opt_authors options,
       req_after = opt_cursor options, req_path = None,
       req_limit = getPagingLimit env (opt_limit options),
       req_since = (if truthy_string (opt_since options) then opt_since options else None)\<rparr>)"

text \<open>The arguments that \<^verbatim>\<open>getLogForPathCore\<close> hands to \<^verbatim>\<open>github.getCommits\<close> (lines 653-665).\<close>

definition getLogForPathCore_call ::
  "env \<Rightarrow> RepositoryContext \<Rightarrow> string \<Rightarrow> string \<Rightarrow> string \<Rightarrow> GitLogOptions \<Rightarrow> GetCommitsCall" where
  "getLogForPathCore_call env ctx rp path rv' options =
     (accessToken ctx, owner ctx, repo_name ctx, stripOrigin env rv',
      \<lparr>req_all = opt_all options, req_authors = None,
       req_after = opt_cursor options, req_path = Some (getProviderRelativePath env path rp),
       req_limit = getPagingLimit env (opt_limit options),
       req_since = (if truthy_string (opt_since options) then opt_since options else None)\<rparr>)"

subsection \<open>Well-formed logs and caches\<close>

text \<open>
  The invariant of a log: \<^verbatim>\<open>count\<close> is the size of \<^verbatim>\<open>commits\<close>, no id is the key of two
  entries, and a log that reports no further pages has no continuation.
\<close>

definition log_ok :: "GitLog \<Rightarrow> bool" where
  "log_ok log =
     (count log = length (commits log) \<and> distinct (map fst (commits log)) \<and>
      (hasMore log \<or> moreFn log = None))"

text \<open>Every log held by the cache of a document satisfies the invariant.\<close>

definition cache_ok :: "world \<Rightarrow> bool" where
  "cache_ok w =
     (\<forall>d st key cl lg. docs w d = Some st \<longrightarrow> st key = Some cl \<longrightarrow> item cl = Some lg \<longrightarrow> log_ok lg)"

subsection \<open>A concrete repository\<close>

text \<open>A small remote, used to evaluate the operations on explicit inputs.\<close>

definition demo_identity :: "string \<Rightarrow> GitHubCommitIdentity" where
  "demo_identity n =
     \<lparr>gh_name = n, gh_email = n @ ''@example.com'', gh_date = ''2024-01-01T00:00:00Z'', gh_avatarUrl = None\<rparr>"

definition demo_raw :: "string \<Rightarrow> string \<Rightarrow> GitHubCommit" where
  "demo_raw i msg =
     \<lparr>oid = i, gh_author = demo_identity ''alice'', gh_committer = demo_identity ''bob'',
      gh_message = msg, gh_parents = [], gh_files = None, changedFiles = None,
      gh_additions = None, gh_deletions = None, gh_viewer = ViewerUndefined\<rparr>"

definition demo_context :: RepositoryContext where
  "demo_context =
     \<lparr>owner = ''octo'', repo_name = ''demo'', accessToken = ''token'', account_label = Some ''alice'',
      getRevision = Inr ''main''\<rparr>"

definition demo_page1 :: GitHubCommitsResult where
  "demo_page1 =
     \<lparr>result_values = [demo_raw ''a'' ''first'', demo_raw ''b'' ''second'', demo_raw ''c'' ''third''],
      paging = Some \<lparr>paging_more = True, paging_cursor = Some ''p2''\<rparr>,
      result_viewer = ViewerUndefined\<rparr>"

definition demo_page2 :: GitHubCommitsResult where
  "demo_page2 =
     \<lparr>result_values = [demo_raw ''c'' ''third, amended'', demo_raw ''d'' ''fourth'', demo_raw ''e'' ''fifth''],
      paging = Some \<lparr>paging_more = False, paging_cursor = None\<rparr>,
      result_viewer = ViewerUndefined\<rparr>"

definition demo_empty_page :: GitHubCommitsResult where
  "demo_empty_page =
     \<lparr>result_values = [], paging = Some \<lparr>paging_more = False, paging_cursor = None\<rparr>, result_viewer = ViewerUndefined\<rparr>"

text \<open>
  The remote fails for the path \<^verbatim>\<open>gone.txt\<close>, answers the first page without a cursor,
  the second page after \<^verbatim>\<open>p2\<close>, and an empty page after any other cursor.
\<close>

definition demo_getCommits :: "GetCommitsCall \<Rightarrow> error + GitHubCommitsResult" where
  "demo_getCommits c =
     (let q = snd (snd (snd (snd c))) in
      if req_path q = Some ''gone.txt'' then Inl (Error ''Not Found'')
      else if req_after q = None then Inr demo_page1
      else if req_after q = Some ''p2'' then Inr demo_page2
      else Inr demo_empty_page)"

definition demo_env :: env where
  "demo_env =
     \<lparr>getPagingLimit = (\<lambda>l. case l of None \<Rightarrow> 100 | Some n \<Rightarrow> n),
      getRelativePath = (\<lambda>p rp. p),
      getProviderRelativePath = (\<lambda>p rp. p),
      isFolderGlob = (\<lambda>p. False),
      stripFolderGlob = (\<lambda>p. p),
      getTreeEntryForRevision = (\<lambda>rp r p. Inr (Some ''blob'')),
      stripOrigin = (\<lambda>r. r),
      fromCommitFileStatus = (\<lambda>s. None),
      ensureRepositoryContext = (\<lambda>rp. if rp = ''/offline'' then Inl (Error ''offline'') else Inr (Some demo_context)),
      github_getCommits = demo_getCommits,
      github_getCommit = (\<lambda>t ow n r. Inr (Some (demo_raw r ''single''))),
      github_getComparison =
        (\<lambda>t ow n r. if r = ''x...y'' then Inl (Error ''Not Found'')
                    else Inr (Some \<lparr>comparison_status = Some ''behind'', ahead_by = 0, behind_by = 2\<rparr>)),
      github_searchCommits =
        (\<lambda>t q c l srt. Inr (Some \<lparr>search_values = [demo_raw ''a'' ''first''], pageInfo = None\<rparr>)),
      createRevisionRange = (\<lambda>l r sep. l @ sep @ r),
      GitUri_fromFile = (\<lambda>p rp r. rp @ ''/'' @ p),
      isUncommitted = (\<lambda>r. False),
      createUncommittedChangesCommit = (\<lambda>rp r. Inl (Error ''unsupported'')),
      processNaturalLanguageToSearchQuery = (\<lambda>s src. s),
      parseSearchQuery = (\<lambda>s. [(''message:'', [search_query s])]),
      getQueryArgsFromSearchQuery = (\<lambda>s ops rp. [search_query s]),
      largeNumber_toString = (\<lambda>i. ''1e+21'')\<rparr>"

definition demo_options :: GitLogOptions where
  "demo_options =
     \<lparr>opt_all = None, opt_authors = None, opt_cursor = None, opt_filters = None, opt_isFolder = None,
      opt_limit = None, opt_merges = None, opt_ordering = None, opt_range = None, opt_renames = None,
      opt_since = None, opt_until = None\<rparr>"

definition demo_commit :: "string \<Rightarrow> string \<Rightarrow> GitCommit" where
  "demo_commit i msg = toGitCommit ''/repo'' (Some ''alice'') (demo_raw i msg) None"

definition demo_world :: world where
  "demo_world = \<lparr>docs = (\<lambda>d. None), calls = []\<rparr>"

text \<open>The log of the first page \<^verbatim>\<open>[a, b, c]\<close>, with a continuation.\<close>

definition demo_log :: GitLog where
  "demo_log =
     \<lparr>repoPath = ''/repo'',
      commits = [(''a'', demo_commit ''a'' ''first''), (''b'', demo_commit ''b'' ''second''),
                 (''c'', demo_commit ''c'' ''third'')],
      sha = Some ''main'', count = 3, limit = Some 3, hasMore = True,
      startingCursor = None, endingCursor = Some ''p2'', pagedCommits = None,
      query = Some (LogQuery ''/repo'' (Some ''main'') demo_options),
      moreFn = Some (LogMoreFn (Some ''main'') demo_options)\<rparr>"

text \<open>A fully fetched log of one file, \<^verbatim>\<open>[c5, c4, c3, c2, c1]\<close>, and a cache that holds it.\<close>

definition demo_file_log :: GitLog where
  "demo_file_log =
     \<lparr>repoPath = ''/repo'',
      commits = [(''c5'', demo_commit ''c5'' ''five''), (''c4'', demo_commit ''c4'' ''four''),
                 (''c3'', demo_commit ''c3'' ''three''), (''c2'', demo_commit ''c2'' ''two''),
                 (''c1'', demo_commit ''c1'' ''one'')],
      sha = Some ''main'', count = 5, limit = Some 0, hasMore = False,
      startingCursor = None, endingCursor = None, pagedCommits = None,
      query = Some (LogForPathQuery ''/repo'' ''file.txt'' (Some ''main'') demo_options),
      moreFn = None\<rparr>"

definition demo_cached_world :: world where
  "demo_cached_world =
     \<lparr>docs = (\<lambda>d. if d = ''/repo/file.txt''
                   then Some [''log'' \<mapsto> \<lparr>item = Some demo_file_log, errorMessage = None\<rparr>]
                   else None),
      calls = []\<rparr>"

text \<open>The log that \<^verbatim>\<open>getLog\<close> builds from the second page, asked for with the cursor \<^verbatim>\<open>p2\<close>.\<close>

definition demo_page2_log :: GitLog where
  "demo_page2_log =
     \<lparr>repoPath = ''/repo'',
      commits = [(''c'', demo_commit ''c'' ''third, amended''), (''d'', demo_commit ''d'' ''fourth''),
                 (''e'', demo_commit ''e'' ''fifth'')],
      sha = Some ''main'', count = 3, limit = Some 3, hasMore = False,
      startingCursor = None, endingCursor = None, pagedCommits = None,
      query = Some (LogQuery ''/repo'' (Some ''main'')
                (demo_options\<lparr>opt_limit := Some 3, opt_cursor := Some ''p2''\<rparr>)),
      moreFn = None\<rparr>"

text \<open>The first log again, with a cursor after which the remote has only an empty page.\<close>

definition demo_last_log :: GitLog where
  "demo_last_log = demo_log\<lparr>endingCursor := Some ''p3''\<rparr>"

text \<open>A remote that rejects every fetch.\<close>

definition demo_offline_env :: env where
  "demo_offline_env = demo_env\<lparr>github_getCommits := (\<lambda>c. Inl (Error ''offline''))\<rparr>"

section \<open>Properties\<close>

subsection \<open>The insertion-ordered Map\<close>

lemma keys_map_set:
  "map fst (map_set m k v) = (if k \<in> set (map fst m) then map fst m else map fst m @ [k])"
  by (induction m) force+

lemma distinct_map_set:
  "distinct (map fst m) \<Longrightarrow> distinct (map fst (map_set m k v))"
  by (simp add: keys_map_set)

lemma map_set_fresh:
  "k \<notin> set (map fst m) \<Longrightarrow> map_set m k v = m @ [(k, v)]"
  by (induction m) auto

lemma map_of_map_set:
  "map_of (map_set m k v) = (map_of m)(k \<mapsto> v)"
  by (induction m) (auto simp: fun_eq_iff)

lemma distinct_foldl_map_set:
  "distinct (map fst acc) \<Longrightarrow> distinct (map fst (foldl (\<lambda>m e. map_set m (fst e) (snd e)) acc es))"
  by (induction es arbitrary: acc) (simp_all add: distinct_map_set)

lemma distinct_new_Map: "distinct (map fst (new_Map es))"
  by (simp add: new_Map_def distinct_foldl_map_set)

lemma foldl_map_set_distinct:
  "distinct (map fst (acc @ es)) \<Longrightarrow> foldl (\<lambda>m e. map_set m (fst e) (snd e)) acc es = acc @ es"
proof (induction es arbitrary: acc)
  case Nil
  then show ?case by simp
next
  case (Cons e es)
  have fresh: "fst e \<notin> set (map fst acc)" using Cons.prems by auto
  have "distinct (map fst ((acc @ [e]) @ es))" using Cons.prems by simp
  then have "foldl (\<lambda>m e. map_set m (fst e) (snd e)) (acc @ [e]) es = (acc @ [e]) @ es"
    by (rule Cons.IH)
  then show ?case using fresh by (simp add: map_set_fresh)
qed

lemma new_Map_distinct: "distinct (map fst es) \<Longrightarrow> new_Map es = es"
  using foldl_map_set_distinct [of "[]" es] by (simp add: new_Map_def)


lemma distinct_addCommit:
  "distinct (map fst cs) \<Longrightarrow> distinct (map fst (addCommit mk cs c))"
  by (simp add: addCommit_def distinct_map_set split: option.splits)

lemma distinct_collectCommits_aux:
  "distinct (map fst acc) \<Longrightarrow> distinct (map fst (foldl (addCommit mk) acc vals))"
  by (induction vals arbitrary: acc) (simp_all add: distinct_addCommit)

lemma distinct_collectCommits: "distinct (map fst (collectCommits mk vals))"
  by (simp add: collectCommits_def distinct_collectCommits_aux)

lemma copyFrom_noskip:
  "copyFrom r (Some n) False i es = take (nat (n - i)) es"
proof (induction es arbitrary: i)
  case Nil
  then show ?case by simp
next
  case (Cons e es)
  obtain s c where e: "e = (s, c)" by (cases e)
  show ?case
  proof (cases "i + 1 > n")
    case True
    then have "nat (n - i) = 0" by simp
    moreover have "copyFrom r (Some n) False (i + 1) es = []"
      using Cons.IH [of "i + 1"] True by simp
    ultimately show ?thesis using True e by simp
  next
    case False
    then have "nat (n - i) = Suc (nat (n - (i + 1)))" by simp
    then show ?thesis using False e Cons.IH [of "i + 1"] by simp
  qed
qed

lemma copyFrom_unlimited: "copyFrom r None False i es = es"
  by (induction es arbitrary: i) auto

lemma copyFrom_skip:
  "copyFrom r lim True i es = copyFrom r lim False i (dropWhile (\<lambda>e. fst e \<noteq> r) es)"
proof (induction es)
  case Nil
  then show ?case by simp
next
  case (Cons e es)
  obtain s c where e: "e = (s, c)" by (cases e)
  show ?case using Cons.IH e by simp
qed

lemma copyFrom_take:
  "copyFrom r (Some n) True 0 es = take (nat n) (dropWhile (\<lambda>e. fst e \<noteq> r) es)"
  by (simp add: copyFrom_skip copyFrom_noskip)

subsection \<open>The continuations, by the outcome of the inner call\<close>

lemma getLogMoreFn_none:
  assumes "\<not> untilReached log (moreUntil_of arg)"
    and "getLog env (Some (repoPath log)) rv
           (options\<lparr>opt_limit := Some (getPagingLimit env (moreLimit_of arg)), opt_cursor := endingCursor log\<rparr>) w
         = (None, w')"
  shows "getLogMoreFn env log rv options arg w = (log\<lparr>hasMore := False, moreFn := None\<rparr>, w')"
  using assms by (simp add: getLogMoreFn_def Let_def)

lemma getLogMoreFn_some:
  assumes "\<not> untilReached log (moreUntil_of arg)"
    and "getLog env (Some (repoPath log)) rv
           (options\<lparr>opt_limit := Some (getPagingLimit env (moreLimit_of arg)), opt_cursor := endingCursor log\<rparr>) w
         = (Some moreLog, w')"
  shows "commits (fst (getLogMoreFn env log rv options arg w)) = new_Map (commits log @ commits moreLog)"
    and "count (fst (getLogMoreFn env log rv options arg w)) = length (new_Map (commits log @ commits moreLog))"
    and "endingCursor (fst (getLogMoreFn env log rv options arg w)) = endingCursor moreLog"
    and "limit (fst (getLogMoreFn env log rv options arg w)) =
          (if moreUntil_of arg = None then Some (orZero (limit log) + getPagingLimit env (moreLimit_of arg)) else None)"
    and "snd (getLogMoreFn env log rv options arg w) = w'"
  using assms by (simp_all add: getLogMoreFn_def Let_def)

lemma getLogForPathMoreFn_none:
  assumes "\<not> untilReached log (moreUntil_of arg)"
    and "getLogForPath env (Some (repoPath log)) p rv
           (options\<lparr>opt_limit := Some (if moreUntil_of arg = None then getPagingLimit env (moreLimit_of arg) else 0),
                    opt_cursor := endingCursor log\<rparr>) w
         = (Inr None, w')"
  shows "getLogForPathMoreFn env log p rv options arg w = (Inr (log\<lparr>hasMore := False, moreFn := None\<rparr>), w')"
  using assms by (simp add: getLogForPathMoreFn_def Let_def)

lemma getLogForPathMoreFn_some:
  assumes "\<not> untilReached log (moreUntil_of arg)"
    and "getLogForPath env (Some (repoPath log)) p rv
           (options\<lparr>opt_limit := Some (if moreUntil_of arg = None then getPagingLimit env (moreLimit_of arg) else 0),
                    opt_cursor := endingCursor log\<rparr>) w
         = (Inr (Some moreLog), w')"
  shows "\<exists>lg. getLogForPathMoreFn env log p rv options arg w = (Inr lg, w') \<and>
           commits lg = new_Map (commits log @ commits moreLog) \<and>
           count lg = length (new_Map (commits log @ commits moreLog)) \<and>
           endingCursor lg = endingCursor moreLog \<and>
           limit lg = (if moreUntil_of arg = None
                       then Some (orZero (limit log) + getPagingLimit env (moreLimit_of arg)) else None)"
  using assms by (simp add: getLogForPathMoreFn_def Let_def)

lemma untilReached_iff:
  "untilReached log (Some u) \<longleftrightarrow> u \<noteq> [] \<and> (\<exists>e \<in> set (commits log). ref (snd e) = u)"
  by (simp add: untilReached_def list_ex_iff)

subsection \<open>Preservation of the invariants\<close>

lemma docs_recordCall [simp]: "docs (recordCall c w) = docs w"
  by (simp add: recordCall_def)

lemma calls_recordCall [simp]: "calls (recordCall c w) = calls w @ [c]"
  by (simp add: recordCall_def)

lemma getLog_log_ok:
  assumes "getLog env rp rv options w = (Some lg, w')"
  shows "log_ok lg"
  using assms
  by (auto simp: getLog_def Let_def log_ok_def distinct_collectCommits
           split: option.splits sum.splits if_splits)

lemma core_log_ok:
  assumes "getLogForPathCore env rp p rv options w = (Inr (Some lg), w')"
  shows "log_ok lg"
  using assms
  by (auto simp: getLogForPathCore_def Let_def log_ok_def distinct_collectCommits
           split: option.splits sum.splits if_splits)

lemma core_docs:
  assumes "getLogForPathCore env rp p rv options w = (r, w')"
  shows "docs w' = docs w"
  using assms
  by (auto simp: getLogForPathCore_def Let_def split: option.splits sum.splits if_splits)

lemma cache_ok_docs: "docs w' = docs w \<Longrightarrow> cache_ok w' = cache_ok w"
  by (simp add: cache_ok_def)

lemma cache_ok_ensureState: "cache_ok w \<Longrightarrow> cache_ok (ensureState d w)"
  unfolding cache_ok_def ensureState_def
  by (auto split: option.splits if_splits)

lemma cache_ok_setLog:
  assumes "cache_ok w" and "\<And>lg. item v = Some lg \<Longrightarrow> log_ok lg"
  shows "cache_ok (setLog d key v w)"
  using assms unfolding cache_ok_def setLog_def
  by (auto split: option.splits if_splits)

lemma partialLog_ok:
  assumes "log_ok log" and "\<not> hasMore log"
  shows "log_ok (partialLog rp p r options log)"
  using assms by (simp add: partialLog_def Let_def log_ok_def distinct_new_Map)

lemma lookupCached_ok:
  assumes "\<And>key cl lg. st key = Some cl \<Longrightarrow> item cl = Some lg \<Longrightarrow> log_ok lg"
    and "lookupCached rp p rv options key st = Some (Some lg)"
  shows "log_ok lg"
  using assms
  by (auto simp: lookupCached_def partialLog_ok split: option.splits if_splits)

lemma getLogForPath_ok:
  assumes "cache_ok w" and "getLogForPath env rp p rv options w = (Inr (Some lg), w')"
  shows "log_ok lg \<and> cache_ok w'"
proof (cases rp)
  case None
  then show ?thesis using assms by (simp add: getLogForPath_def)
next
  case (Some rp')
  let ?rel0 = "getRelativePath env p rp'"
  have ne: "rp' \<noteq> ?rel0"
    using assms(2) Some by (auto simp: getLogForPath_def Let_def split: if_splits)
  obtain rel opts where rf: "resolveFolder env rp' ?rel0 rv (pathOptions env options) = Inr (rel, opts)"
    using assms(2) Some ne by (auto simp: getLogForPath_def Let_def split: sum.splits)
  let ?d = "GitUri_fromFile env rel rp' rv"
  let ?look = "(case cacheKeyOf env rv opts of None \<Rightarrow> None
                | Some key \<Rightarrow> (case docs w ?d of None \<Rightarrow> None
                              | Some st \<Rightarrow> lookupCached rp' p rv opts key st))"
  show ?thesis
  proof (cases ?look)
    case (Some cached)
    then have "getLogForPath env rp p rv options w = (Inr cached, w)"
      using \<open>rp = Some rp'\<close> ne rf by (simp add: getLogForPath_def Let_def)
    then have eq: "cached = Some lg" "w' = w" using assms(2) by simp_all
    obtain key st where k: "docs w ?d = Some st" "lookupCached rp' p rv opts key st = Some (Some lg)"
      using Some eq by (auto split: option.splits)
    have "log_ok lg"
      using k assms(1) lookupCached_ok [of st rp' p rv opts key lg]
      unfolding cache_ok_def by blast
    then show ?thesis using eq assms(1) by simp
  next
    case None
    let ?w1 = "if cacheKeyOf env rv opts \<noteq> None then ensureState ?d w else w"
    obtain r w2 where core: "getLogForPathCore env (Some rp') rel rv opts ?w1 = (r, w2)"
      by (cases "getLogForPathCore env (Some rp') rel rv opts ?w1")
    have w1: "cache_ok ?w1" using assms(1) by (simp add: cache_ok_ensureState)
    have w2: "cache_ok w2" using core_docs [OF core] w1 cache_ok_docs by blast
    show ?thesis
      using assms(2) \<open>rp = Some rp'\<close> ne rf None core w2
      by (auto simp: getLogForPath_def Let_def emptyPromise_def
               intro!: cache_ok_setLog dest: core_log_ok
               split: option.splits sum.splits if_splits)
  qed
qed

subsection \<open>Options and calls of getLogForPath\<close>

lemma pathOptions_all_renames:
  "pathOptions env (options\<lparr>opt_all := a, opt_renames := r\<rparr>) = pathOptions env options"
  by (simp add: pathOptions_def)

lemma resolveFolder_all:
  assumes "resolveFolder env rp rel rv options = Inr (rel', opts)"
  shows "opt_all opts = opt_all options \<and> opt_renames opts = opt_renames options \<and>
         opt_limit opts = opt_limit options \<and> opt_isFolder opts \<noteq> None"
  using assms by (auto simp: resolveFolder_def split: if_splits sum.splits)

lemma core_calls:
  assumes "getLogForPathCore env rp p rv options w = (r, w')"
  shows "calls w' = calls w \<or>
         (\<exists>tok ow nm rv' q. calls w' = calls w @ [(tok, ow, nm, rv', q)] \<and> req_all q = opt_all options)"
  using assms
  by (auto simp: getLogForPathCore_def Let_def split: option.splits sum.splits if_splits)

lemma calls_ensureState [simp]: "calls (ensureState d w) = calls w"
  by (simp add: ensureState_def)

lemma calls_setLog [simp]: "calls (setLog d key v w) = calls w"
  by (simp add: setLog_def)

subsection \<open>Evaluation on the concrete repository; failing fetches\<close>

lemmas demo_defs =
  demo_env_def demo_getCommits_def demo_context_def demo_options_def demo_world_def
  demo_page1_def demo_page2_def demo_empty_page_def demo_commit_def demo_raw_def demo_identity_def
  demo_log_def demo_page2_log_def demo_last_log_def demo_offline_env_def

lemmas eval_defs =
  getLog_def resolveRevision_def recordCall_def collectCommits_def addCommit_def completeFileset_def
  toGitCommit_def new_GitCommit_def viewerName_def viewerOf_def firstLine_def orZero_def
  untilReached_def moreUntil_of_def moreLimit_of_def Let_def

lemma demo_getLog_page2:
  "getLog demo_env (Some ''/repo'') (Some ''main'')
     (demo_options\<lparr>opt_limit := Some 3, opt_cursor := Some ''p2''\<rparr>) demo_world
   = (Some demo_page2_log,
      recordCall (''token'', ''octo'', ''demo'', ''main'',
        \<lparr>req_all = None, req_authors = None, req_after = Some ''p2'', req_path = None, req_limit = 3,
         req_since = None\<rparr>) demo_world)"
  by (simp add: demo_defs eval_defs)

lemma demo_log_not_reached: "\<not> untilReached demo_log (moreUntil_of (Some (Limit 3)))"
  by (simp add: untilReached_def moreUntil_of_def)

lemma demo_paging_3: "getPagingLimit demo_env (moreLimit_of (Some (Limit 3))) = 3"
  by (simp add: demo_env_def moreLimit_of_def)

lemma demo_more_call:
  "getLog demo_env (Some (repoPath demo_log)) (Some ''main'')
     (demo_options\<lparr>opt_limit := Some (getPagingLimit demo_env (moreLimit_of (Some (Limit 3)))),
                   opt_cursor := endingCursor demo_log\<rparr>) demo_world
   = (Some demo_page2_log,
      recordCall (''token'', ''octo'', ''demo'', ''main'',
        \<lparr>req_all = None, req_authors = None, req_after = Some ''p2'', req_path = None, req_limit = 3,
         req_since = None\<rparr>) demo_world)"
  using demo_getLog_page2 by (simp add: demo_paging_3) (simp add: demo_log_def)

lemmas path_eval_defs =
  getLogForPath_def getLogForPathCore_def pathOptions_def resolveFolder_def cacheKeyOf_def
  truthy_bool_def emptyPromise_def ensureState_def setLog_def lookupCached_def

subsection \<open>The cache of getLogForPath\<close>

lemma resolveFolder_pathOptions:
  assumes "resolveFolder env rp rel rv (pathOptions env options) = Inr (rel', opts)"
  shows "opt_all opts = Some False" and "opt_renames opts = Some False"
    and "opt_limit opts = Some (getPagingLimit env (opt_limit options))"
  using resolveFolder_all [OF assms] by (simp_all add: pathOptions_def)

lemma distinct_take_dropWhile:
  "distinct (map fst es) \<Longrightarrow> distinct (map fst (take n (dropWhile P es)))"
proof -
  assume d: "distinct (map fst es)"
  have "distinct (map fst (dropWhile P es))"
    using d by (induction es) auto
  then have "distinct (take n (map fst (dropWhile P es)))"
    by (rule distinct_take)
  then show ?thesis by (simp only: take_map)
qed

lemma demo_resolveFolder:
  "resolveFolder demo_env ''/repo'' (getRelativePath demo_env p ''/repo'') rv (pathOptions demo_env demo_opts)
   = (if opt_isFolder demo_opts = None
      then Inr (p, (pathOptions demo_env demo_opts)\<lparr>opt_isFolder := Some False\<rparr>)
      else Inr (p, pathOptions demo_env demo_opts))"
  by (simp add: resolveFolder_def demo_env_def pathOptions_def)

lemma docs_setLog_same:
  "docs w d = Some st \<Longrightarrow> docs (setLog d key v w) d = Some (st(key \<mapsto> v))"
  by (simp add: setLog_def)

lemma docs_ensureState_same:
  "\<exists>st. docs (ensureState d w) d = Some st"
  by (simp add: ensureState_def)

subsection \<open>The invariants along the continuations and the search\<close>

lemma getLogMoreFn_log_ok:
  assumes "log_ok log"
  shows "log_ok (fst (getLogMoreFn env log rv options arg w))"
proof (cases "untilReached log (moreUntil_of arg)")
  case True
  then show ?thesis using assms by (simp add: getLogMoreFn_def Let_def)
next
  case False
  obtain r w' where g: "getLog env (Some (repoPath log)) rv
           (options\<lparr>opt_limit := Some (getPagingLimit env (moreLimit_of arg)), opt_cursor := endingCursor log\<rparr>) w
         = (r, w')"
    by (cases "getLog env (Some (repoPath log)) rv
           (options\<lparr>opt_limit := Some (getPagingLimit env (moreLimit_of arg)), opt_cursor := endingCursor log\<rparr>) w")
  show ?thesis
  proof (cases r)
    case None
    then show ?thesis
      using getLogMoreFn_none [OF False g [unfolded None]] assms by (simp add: log_ok_def)
  next
    case (Some moreLog)
    show ?thesis
      using False g Some
      by (simp add: getLogMoreFn_def Let_def log_ok_def distinct_new_Map)
  qed
qed

lemma getLogForPath_cache_ok:
  assumes "cache_ok w"
  shows "cache_ok (snd (getLogForPath env rp p rv options w))"
proof (cases rp)
  case None
  then show ?thesis using assms by (simp add: getLogForPath_def)
next
  case (Some rp')
  let ?rel0 = "getRelativePath env p rp'"
  show ?thesis
  proof (cases "rp' = ?rel0")
    case True
    then show ?thesis using assms Some by (simp add: getLogForPath_def Let_def)
  next
    case ne: False
    show ?thesis
    proof (cases "resolveFolder env rp' ?rel0 rv (pathOptions env options)")
      case (Inl e)
      then show ?thesis using assms Some ne by (simp add: getLogForPath_def Let_def)
    next
      case (Inr x)
      obtain rel opts where x: "x = (rel, opts)" by (cases x)
      let ?d = "GitUri_fromFile env rel rp' rv"
      let ?w1 = "if cacheKeyOf env rv opts \<noteq> None then ensureState ?d w else w"
      obtain r w2 where core: "getLogForPathCore env (Some rp') rel rv opts ?w1 = (r, w2)"
        by (cases "getLogForPathCore env (Some rp') rel rv opts ?w1")
      have w1: "cache_ok ?w1" using assms by (simp add: cache_ok_ensureState)
      have w2: "cache_ok w2" using core_docs [OF core] w1 cache_ok_docs by blast
      show ?thesis
        using assms Some ne Inr x core w2
        by (auto simp: getLogForPath_def Let_def emptyPromise_def
                 intro!: cache_ok_setLog dest: core_log_ok
                 split: option.splits sum.splits if_splits)
    qed
  qed
qed

lemma getLogForPathMoreFn_ok:
  assumes "log_ok log" and "cache_ok w"
  shows "cache_ok (snd (getLogForPathMoreFn env log p rv options arg w))"
    and "fst (getLogForPathMoreFn env log p rv options arg w) = Inr lg \<Longrightarrow> log_ok lg"
proof -
  let ?o = "options\<lparr>opt_limit := Some (if moreUntil_of arg = None then getPagingLimit env (moreLimit_of arg) else 0),
                    opt_cursor := endingCursor log\<rparr>"
  obtain r w' where g: "getLogForPath env (Some (repoPath log)) p rv ?o w = (r, w')"
    by (cases "getLogForPath env (Some (repoPath log)) p rv ?o w")
  have cw: "cache_ok w'"
    using getLogForPath_cache_ok [OF assms(2), of env "Some (repoPath log)" p rv ?o] g by simp
  show "cache_ok (snd (getLogForPathMoreFn env log p rv options arg w))"
    using assms(2) g cw
    by (auto simp: getLogForPathMoreFn_def Let_def split: sum.splits option.splits)
  show "log_ok lg" if "fst (getLogForPathMoreFn env log p rv options arg w) = Inr lg"
    using that assms(1) g
    by (auto simp: getLogForPathMoreFn_def Let_def log_ok_def distinct_new_Map
             split: sum.splits option.splits if_splits)
qed

lemma searchCommits_log_ok:
  assumes "result_log (searchCommits env rp search source options) = Some lg"
  shows "log_ok lg"
  using assms
  by (auto simp: searchCommits_def Let_def log_ok_def distinct_collectCommits new_Map_def
           split: option.splits sum.splits if_splits list.splits)

lemma searchCommitsCore_log_ok:
  assumes "log_ok log"
  shows "log_ok (searchCommitsCore env log search source options n)"
  using assms
  by (auto simp: searchCommitsCore_def Let_def log_ok_def distinct_new_Map split: option.splits)

subsection \<open>The concrete repository and the invariants\<close>

lemma demo_gone_core:
  "getLogForPathCore demo_env (Some ''/repo'') ''gone.txt'' None
     ((pathOptions demo_env demo_options)\<lparr>opt_isFolder := Some False\<rparr>) w
   = (Inl (Error ''Not Found''),
      recordCall (''token'', ''octo'', ''demo'', ''main'',
        \<lparr>req_all = Some False, req_authors = None, req_after = None, req_path = Some ''gone.txt'',
         req_limit = 100, req_since = None\<rparr>) w)"
  by (simp add: getLogForPathCore_def pathOptions_def demo_env_def demo_getCommits_def demo_context_def
        demo_options_def resolveRevision_def Let_def)

lemma demo_log_ok: "log_ok demo_log"
  by (simp add: log_ok_def demo_log_def)

lemma demo_world_cache_ok: "cache_ok demo_world"
  by (simp add: cache_ok_def demo_world_def)

lemma demo_cached_world_cache_ok: "cache_ok demo_cached_world"
  by (auto simp: cache_ok_def demo_cached_world_def log_ok_def demo_file_log_def split: if_splits)

lemma demo_partial_some:
  "\<exists>lg. fst (getLogForPath demo_env (Some ''/repo'') ''file.txt'' (Some ''c3'')
                (demo_options\<lparr>opt_limit := Some 2\<rparr>) demo_cached_world) = Inr (Some lg)"
  by (simp add: getLogForPath_def demo_resolveFolder Let_def)
     (simp add: cacheKeyOf_def pathOptions_def demo_options_def demo_env_def truthy_bool_def
        number_toString_def string_of_nat.simps demo_cached_world_def lookupCached_def
        demo_file_log_def map_has_def)

lemma demo_search_some:
  "\<exists>lg. result_log (searchCommits demo_env (Some ''/repo'')
            \<lparr>search_query = ''fix'', matchAll = None, matchCase = None, matchRegex = None,
             matchWholeWord = None, naturalLanguage = None\<rparr> ''view'' demo_options) = Some lg"
  by (simp add: searchCommits_def prepareSearch_def needsProcessing_def demo_env_def Let_def)

lemma demo_path_more_some:
  "\<exists>lg. fst (getLogForPathMoreFn demo_env demo_log ''gone.txt'' (Some ''main'') demo_options
                (Some (Limit 3)) demo_world) = Inr lg"
  by (auto simp: getLogForPathMoreFn_def Let_def path_eval_defs demo_defs resolveRevision_def
        recordCall_def moreUntil_of_def moreLimit_of_def untilReached_def)

subsection \<open>The second page on the concrete repository\<close>

lemma demo_path_page2:
  "\<exists>moreLog w' z u v.
     getLogForPath demo_env (Some (repoPath demo_log)) ''file.txt'' (Some ''main'')
       (demo_options\<lparr>opt_limit := Some (if moreUntil_of (Some (Limit 3)) = None
                                         then getPagingLimit demo_env (moreLimit_of (Some (Limit 3))) else 0),
                     opt_cursor := endingCursor demo_log\<rparr>) demo_world
     = (Inr (Some moreLog), w') \<and>
     commits moreLog = [(''c'', z), (''d'', u), (''e'', v)] \<and> endingCursor moreLog = None"
  by (simp add: path_eval_defs demo_defs resolveRevision_def recordCall_def moreUntil_of_def
        moreLimit_of_def collectCommits_def addCommit_def Let_def)

lemma demo_until_page2:
  "\<exists>moreLog w'.
     getLog demo_env (Some (repoPath demo_log)) (Some ''main'')
       (demo_options\<lparr>opt_limit := Some (getPagingLimit demo_env (moreLimit_of (Some (Until ''e'')))),
                     opt_cursor := endingCursor demo_log\<rparr>) demo_world
     = (Some moreLog, w')"
  by (simp add: demo_defs eval_defs)

lemma demo_log_until_not_reached: "\<not> untilReached demo_log (moreUntil_of (Some (Until ''e'')))"
  by (simp add: untilReached_def moreUntil_of_def demo_log_def demo_commit_def toGitCommit_def
        new_GitCommit_def demo_raw_def)

subsection \<open>Rejected fetches\<close>

lemma getLog_fetch_rejected:
  assumes "ensureRepositoryContext env rp = Inr (Some ctx)"
    and "resolveRevision ctx rv = Inr rv'"
    and "github_getCommits env (getLog_call env ctx rv' options) = Inl e"
  shows "getLog env (Some rp) rv options w = (None, recordCall (getLog_call env ctx rv' options) w)"
  using assms by (simp add: getLog_def getLog_call_def Let_def)

lemma core_fetch_rejected:
  assumes "ensureRepositoryContext env rp = Inr (Some ctx)"
    and "resolveRevision ctx rv = Inr rv'"
    and "github_getCommits env (getLogForPathCore_call env ctx rp path rv' options) = Inl e"
  shows "getLogForPathCore env (Some rp) path rv options w
         = (Inl e, recordCall (getLogForPathCore_call env ctx rp path rv' options) w)"
  using assms by (simp add: getLogForPathCore_def getLogForPathCore_call_def Let_def)

lemma getLogForPath_core_rejected:
  assumes "getRelativePath env p rp \<noteq> rp"
    and "resolveFolder env rp (getRelativePath env p rp) rv (pathOptions env options) = Inr (rel, opts)"
    and "(case cacheKeyOf env rv opts of
            None \<Rightarrow> None
          | Some key \<Rightarrow>
              (case docs w (GitUri_fromFile env rel rp rv) of
                 None \<Rightarrow> None
               | Some st \<Rightarrow> lookupCached rp p rv opts key st)) = None"
    and "getLogForPathCore env (Some rp) rel rv opts
           (if cacheKeyOf env rv opts \<noteq> None then ensureState (GitUri_fromFile env rel rp rv) w else w)
         = (Inl e, w2)"
  shows "fst (getLogForPath env (Some rp) p rv options w) = Inr None"
    and "calls (snd (getLogForPath env (Some rp) p rv options w)) = calls w2"
proof -
  have ne: "rp \<noteq> getRelativePath env p rp" using assms(1) [symmetric] .
  show "fst (getLogForPath env (Some rp) p rv options w) = Inr None"
    unfolding getLogForPath_def Let_def using ne assms(2,3,4)
    by (simp add: emptyPromise_def split: option.splits)
  show "calls (snd (getLogForPath env (Some rp) p rv options w)) = calls w2"
    unfolding getLogForPath_def Let_def using ne assms(2,3,4)
    by (simp add: emptyPromise_def split: option.splits)
qed

section \<open>The claims\<close>

text \<open>
  C9. When the relative path that \<^verbatim>\<open>getRelativePath\<close> gives for the argument is the
  repository path itself, \<^verbatim>\<open>getLogForPath\<close> throws the error "Path cannot match the
  repository path": the result is the error, not \<^verbatim>\<open>undefined\<close> or an empty log, and the
  state is untouched (no fetch is recorded, no document state is read or written).
\<close>

theorem getLogForPath_repository_path:
  assumes "getRelativePath env pathOrUri rp = rp"
  shows "getLogForPath env (Some rp) pathOrUri rv options w
         = (Inl (Error (''Path cannot match the repository path; path='' @ rp)), w)"
  using assms by (simp add: getLogForPath_def Let_def)

theorem getLogForPath_repository_path_witness:
  "getRelativePath demo_env ''/repo'' ''/repo'' = ''/repo'' \<and>
   getLogForPath demo_env (Some ''/repo'') ''/repo'' None demo_options demo_world
   = (Inl (Error ''Path cannot match the repository path; path=/repo''), demo_world)"
proof -
  have h: "getRelativePath demo_env ''/repo'' ''/repo'' = ''/repo''"
    by (simp add: demo_env_def)
  show ?thesis
    using h getLogForPath_repository_path [OF h, of None demo_options demo_world] by simp
qed

text \<open>
  C7. \<^verbatim>\<open>isAncestorOf\<close> returns true exactly when the comparison was made and its status is
  \<^verbatim>\<open>identical\<close> or \<^verbatim>\<open>behind\<close>. Without a repository path it returns false. Once the
  repository context is at hand, the result is a boolean: false for \<^verbatim>\<open>ahead\<close>, for
  \<^verbatim>\<open>diverged\<close>, for any other status, for an absent result or status, and when the
  comparison call fails. (The context is obtained before the \<^verbatim>\<open>try\<close>; the claim speaks
  of the comparison.)
\<close>

theorem isAncestorOf_classification:
  "isAncestorOf env None rev1 rev2 = Inr False \<and>
   (isAncestorOf env (Some rp) rev1 rev2 = Inr True \<longleftrightarrow>
      (\<exists>ctx res. ensureRepositoryContext env rp = Inr (Some ctx) \<and>
         github_getComparison env (accessToken ctx) (owner ctx) (repo_name ctx)
           (createRevisionRange env (stripOrigin env rev1) (stripOrigin env rev2) ''...'') = Inr (Some res) \<and>
         (comparison_status res = Some ''identical'' \<or> comparison_status res = Some ''behind''))) \<and>
   (\<forall>ctx. ensureRepositoryContext env rp = Inr (Some ctx) \<longrightarrow>
      isAncestorOf env (Some rp) rev1 rev2 =
        Inr (case github_getComparison env (accessToken ctx) (owner ctx) (repo_name ctx)
                    (createRevisionRange env (stripOrigin env rev1) (stripOrigin env rev2) ''...'') of
               Inl e \<Rightarrow> False
             | Inr None \<Rightarrow> False
             | Inr (Some res) \<Rightarrow>
                 comparison_status res = Some ''identical'' \<or> comparison_status res = Some ''behind''))"
  by (auto simp: isAncestorOf_def ancestorStatus_def split: sum.splits option.splits)

theorem isAncestorOf_classification_witness:
  "isAncestorOf demo_env (Some ''/repo'') ''a'' ''b'' = Inr True \<and>
   isAncestorOf demo_env (Some ''/repo'') ''x'' ''y'' = Inr False"
proof -
  have c: "ensureRepositoryContext demo_env ''/repo'' = Inr (Some demo_context)"
    by (simp add: demo_env_def)
  have 1: "isAncestorOf demo_env (Some ''/repo'') ''a'' ''b'' = Inr True"
    using isAncestorOf_classification [where env = demo_env and rp = "''/repo''" and ?rev1.0 = "''a''" and ?rev2.0 = "''b''"] c
    by (simp add: demo_env_def)
  have 2: "isAncestorOf demo_env (Some ''/repo'') ''x'' ''y'' = Inr False"
    using isAncestorOf_classification [where env = demo_env and rp = "''/repo''" and ?rev1.0 = "''x''" and ?rev2.0 = "''y''"] c
    by (simp add: demo_env_def)
  show ?thesis using 1 2 by simp
qed

text \<open>
  C10. Whatever the caller passes as \<^verbatim>\<open>all\<close> and \<^verbatim>\<open>renames\<close>, \<^verbatim>\<open>getLogForPath\<close> behaves
  as if both were false: its result and its effect on the state do not depend on them, the
  options it works with have \<^verbatim>\<open>all = false\<close> and \<^verbatim>\<open>renames = false\<close>, and a fetch it
  issues asks the remote with \<^verbatim>\<open>all = false\<close>.
\<close>

theorem getLogForPath_all_renames_off:
  "getLogForPath env rp p rv (options\<lparr>opt_all := a, opt_renames := r\<rparr>) w
     = getLogForPath env rp p rv options w \<and>
   opt_all (pathOptions env options) = Some False \<and>
   opt_renames (pathOptions env options) = Some False \<and>
   (calls (snd (getLogForPath env rp p rv options w)) = calls w \<or>
    (\<exists>tok ow nm rv' q. calls (snd (getLogForPath env rp p rv options w)) = calls w @ [(tok, ow, nm, rv', q)] \<and>
       req_all q = Some False))"
proof -
  have 1: "getLogForPath env rp p rv (options\<lparr>opt_all := a, opt_renames := r\<rparr>) w
     = getLogForPath env rp p rv options w"
    by (cases rp) (simp_all add: getLogForPath_def pathOptions_all_renames Let_def)
  have 2: "opt_all (pathOptions env options) = Some False \<and> opt_renames (pathOptions env options) = Some False"
    by (simp add: pathOptions_def)
  have 3: "calls (snd (getLogForPath env rp p rv options w)) = calls w \<or>
    (\<exists>tok ow nm rv' q. calls (snd (getLogForPath env rp p rv options w)) = calls w @ [(tok, ow, nm, rv', q)] \<and>
       req_all q = Some False)"
  proof (cases rp)
    case None
    then show ?thesis by (simp add: getLogForPath_def)
  next
    case (Some rp')
    show ?thesis
    proof (cases "rp' = getRelativePath env p rp'")
      case True
      then show ?thesis using Some by (simp add: getLogForPath_def Let_def)
    next
      case ne: False
      show ?thesis
      proof (cases "resolveFolder env rp' (getRelativePath env p rp') rv (pathOptions env options)")
        case (Inl e)
        then show ?thesis using Some ne by (simp add: getLogForPath_def Let_def)
      next
        case (Inr x)
        obtain rel opts where x: "x = (rel, opts)" by (cases x)
        have all: "opt_all opts = Some False"
          using resolveFolder_all [OF Inr [unfolded x]] 2 by simp
        let ?d = "GitUri_fromFile env rel rp' rv"
        let ?w1 = "if cacheKeyOf env rv opts \<noteq> None then ensureState ?d w else w"
        obtain res w2 where core: "getLogForPathCore env (Some rp') rel rv opts ?w1 = (res, w2)"
          by (cases "getLogForPathCore env (Some rp') rel rv opts ?w1")
        have c1: "calls ?w1 = calls w" by simp
        have c2: "calls w2 = calls w \<or>
           (\<exists>tok ow nm rv' q. calls w2 = calls w @ [(tok, ow, nm, rv', q)] \<and> req_all q = Some False)"
          using core_calls [OF core] all c1 by simp
        show ?thesis
          using Some ne Inr x core c2
          by (auto simp: getLogForPath_def Let_def split: option.splits sum.splits)
      qed
    qed
  qed
  show ?thesis using 1 2 3 by blast
qed

text \<open>
  C3. The ids of the commits of a log are the revision identifiers the remote assigns
  (\<^verbatim>\<open>commit.oid\<close>, a content hash), so none is the empty string. For every such log and
  every id \<open>u\<close> that is the \<^verbatim>\<open>ref\<close> of some commit of the log, the continuation called
  with \<^verbatim>\<open>{ until: u }\<close> returns the log it was given and leaves the state as it was: no
  fetch, no change of the log. This holds for the continuation of \<^verbatim>\<open>getLog\<close> and for the
  one of \<^verbatim>\<open>getLogForPath\<close>.
\<close>

theorem more_until_present:
  assumes "\<forall>e \<in> set (commits log). ref (snd e) \<noteq> []"
    and "\<exists>e \<in> set (commits log). ref (snd e) = u"
  shows "getLogMoreFn env log rv options (Some (Until u)) w = (log, w) \<and>
         getLogForPathMoreFn env log p rv options (Some (Until u)) w = (Inr log, w)"
proof -
  have "u \<noteq> []" using assms by blast
  then have "untilReached log (Some u)"
    using assms(2) by (simp add: untilReached_iff)
  then show ?thesis
    by (simp add: getLogMoreFn_def getLogForPathMoreFn_def moreUntil_of_def Let_def)
qed

theorem more_until_present_witness:
  "map (\<lambda>e. ref (snd e)) (commits demo_log) = [''a'', ''b'', ''c''] \<and>
   getLogMoreFn demo_env demo_log (Some ''main'') demo_options (Some (Until ''c'')) demo_world
     = (demo_log, demo_world) \<and>
   getLogForPathMoreFn demo_env demo_log ''file.txt'' (Some ''main'') demo_options (Some (Until ''c'')) demo_world
     = (Inr demo_log, demo_world)"
proof -
  have h1: "\<forall>e \<in> set (commits demo_log). ref (snd e) \<noteq> []"
    by (simp add: demo_log_def demo_commit_def toGitCommit_def new_GitCommit_def demo_raw_def)
  have h2: "\<exists>e \<in> set (commits demo_log). ref (snd e) = ''c''"
    by (simp add: demo_log_def demo_commit_def toGitCommit_def new_GitCommit_def demo_raw_def)
  have t: "getLogMoreFn demo_env demo_log (Some ''main'') demo_options (Some (Until ''c'')) demo_world
     = (demo_log, demo_world) \<and>
   getLogForPathMoreFn demo_env demo_log ''file.txt'' (Some ''main'') demo_options (Some (Until ''c'')) demo_world
     = (Inr demo_log, demo_world)"
    by (rule more_until_present [OF h1 h2])
  have r: "map (\<lambda>e. ref (snd e)) (commits demo_log) = [''a'', ''b'', ''c'']"
    by (simp add: demo_log_def demo_commit_def toGitCommit_def new_GitCommit_def demo_raw_def)
  show ?thesis using r t by simp
qed

text \<open>
  C8. When the inner call of a continuation yields a log (the new page), the merged log's
  \<^verbatim>\<open>endingCursor\<close> is that page's cursor. Its \<^verbatim>\<open>limit\<close> is the prior log's limit (zero
  when absent) plus the page size asked for, as the paging policy \<^verbatim>\<open>getPagingLimit\<close>
  returns it, when the argument is a number or absent; it is unset when the argument is
  \<^verbatim>\<open>{ until }\<close>. This holds for the continuation of \<^verbatim>\<open>getLog\<close> and for the one of
  \<^verbatim>\<open>getLogForPath\<close>.
\<close>

theorem more_cursor_and_limit:
  assumes "\<not> untilReached log (moreUntil_of arg)"
  shows
    "(\<forall>moreLog w'.
        getLog env (Some (repoPath log)) rv
          (options\<lparr>opt_limit := Some (getPagingLimit env (moreLimit_of arg)), opt_cursor := endingCursor log\<rparr>) w
          = (Some moreLog, w') \<longrightarrow>
        endingCursor (fst (getLogMoreFn env log rv options arg w)) = endingCursor moreLog \<and>
        limit (fst (getLogMoreFn env log rv options arg w)) =
          (case arg of
             Some (Until u) \<Rightarrow> None
           | _ \<Rightarrow> Some (orZero (limit log) + getPagingLimit env (moreLimit_of arg)))) \<and>
     (\<forall>moreLog w'.
        getLogForPath env (Some (repoPath log)) p rv
          (options\<lparr>opt_limit := Some (if moreUntil_of arg = None then getPagingLimit env (moreLimit_of arg) else 0),
                   opt_cursor := endingCursor log\<rparr>) w
          = (Inr (Some moreLog), w') \<longrightarrow>
        (\<exists>lg. getLogForPathMoreFn env log p rv options arg w = (Inr lg, w') \<and>
           endingCursor lg = endingCursor moreLog \<and>
           limit lg =
             (case arg of
                Some (Until u) \<Rightarrow> None
              | _ \<Rightarrow> Some (orZero (limit log) + getPagingLimit env (moreLimit_of arg)))))"
proof -
  have u: "(if moreUntil_of arg = None then Some (orZero (limit log) + getPagingLimit env (moreLimit_of arg)) else None)
           = (case arg of Some (Until u) \<Rightarrow> None
              | _ \<Rightarrow> Some (orZero (limit log) + getPagingLimit env (moreLimit_of arg)))"
    by (simp add: moreUntil_of_def split: option.splits more_arg.splits)
  show ?thesis
    using getLogMoreFn_some(3,4) [OF assms] getLogForPathMoreFn_some [OF assms] u
    by (metis (no_types, lifting))
qed

theorem more_cursor_and_limit_witness:
  "endingCursor (fst (getLogMoreFn demo_env demo_log (Some ''main'') demo_options (Some (Limit 3)) demo_world))
     = None \<and>
   limit (fst (getLogMoreFn demo_env demo_log (Some ''main'') demo_options (Some (Limit 3)) demo_world))
     = Some 6 \<and>
   limit (fst (getLogMoreFn demo_env demo_log (Some ''main'') demo_options (Some (Until ''e'')) demo_world))
     = None \<and>
   (\<exists>lg w'. getLogForPathMoreFn demo_env demo_log ''file.txt'' (Some ''main'') demo_options (Some (Limit 3)) demo_world
              = (Inr lg, w') \<and>
            endingCursor lg = None \<and> limit lg = Some 6)"
proof -
  have g: "getLog demo_env (Some (repoPath demo_log)) (Some ''main'')
             (demo_options\<lparr>opt_limit := Some (getPagingLimit demo_env (moreLimit_of (Some (Limit 3)))),
                           opt_cursor := endingCursor demo_log\<rparr>) demo_world
           = (Some demo_page2_log, snd (getLog demo_env (Some ''/repo'') (Some ''main'')
                (demo_options\<lparr>opt_limit := Some 3, opt_cursor := Some ''p2''\<rparr>) demo_world))"
    using demo_getLog_page2 by (simp add: demo_paging_3) (simp add: demo_log_def)
  have v: "endingCursor demo_page2_log = None" "orZero (limit demo_log) = 3"
    by (simp_all add: demo_page2_log_def demo_log_def orZero_def)
  note t = more_cursor_and_limit [OF demo_log_not_reached, of demo_env "Some ''main''" demo_options demo_world
             "''file.txt''"]
  have 1: "endingCursor (fst (getLogMoreFn demo_env demo_log (Some ''main'') demo_options (Some (Limit 3)) demo_world))
     = None \<and>
   limit (fst (getLogMoreFn demo_env demo_log (Some ''main'') demo_options (Some (Limit 3)) demo_world))
     = Some 6"
    using t g v demo_paging_3 by simp
  obtain moreLog w' where u: "getLog demo_env (Some (repoPath demo_log)) (Some ''main'')
       (demo_options\<lparr>opt_limit := Some (getPagingLimit demo_env (moreLimit_of (Some (Until ''e'')))),
                     opt_cursor := endingCursor demo_log\<rparr>) demo_world
     = (Some moreLog, w')"
    using demo_until_page2 by blast
  have 2: "limit (fst (getLogMoreFn demo_env demo_log (Some ''main'') demo_options (Some (Until ''e'')) demo_world))
     = None"
    using more_cursor_and_limit [OF demo_log_until_not_reached, of demo_env "Some ''main''" demo_options demo_world]
      u by simp
  obtain pageLog w'' where p: "getLogForPath demo_env (Some (repoPath demo_log)) ''file.txt'' (Some ''main'')
       (demo_options\<lparr>opt_limit := Some (if moreUntil_of (Some (Limit 3)) = None
                                         then getPagingLimit demo_env (moreLimit_of (Some (Limit 3))) else 0),
                     opt_cursor := endingCursor demo_log\<rparr>) demo_world
     = (Inr (Some pageLog), w'')" and pe: "endingCursor pageLog = None"
    using demo_path_page2 by blast
  have 3: "\<exists>lg w'. getLogForPathMoreFn demo_env demo_log ''file.txt'' (Some ''main'') demo_options (Some (Limit 3)) demo_world
              = (Inr lg, w') \<and>
            endingCursor lg = None \<and> limit lg = Some 6"
    using t p pe v demo_paging_3 by auto
  show ?thesis using 1 2 3 by blast
qed

text \<open>
  C2, as amended. For a prior log with the ids \<open>[a, b, c]\<close> and a next page with the ids
  \<open>[c, d, e]\<close>, the merged log of a continuation has exactly the keys \<open>[a, b, c, d, e]\<close>
  in that order and \<^verbatim>\<open>count = 5\<close>; \<open>c\<close> keeps the position it had in the prior log, and
  its entry is the one of the new page (\<^verbatim>\<open>new Map([...log.commits, ...moreLog.commits])\<close>
  sets the key a second time).
\<close>

theorem more_merge_pages:
  assumes "distinct [a, b, c, d, e]"
    and "\<not> untilReached log (moreUntil_of arg)"
    and "commits log = [(a, x), (b, y), (c, z)]"
    and "commits moreLog = [(c, z'), (d, u), (e, v)]"
  shows
    "(getLog env (Some (repoPath log)) rv
        (options\<lparr>opt_limit := Some (getPagingLimit env (moreLimit_of arg)), opt_cursor := endingCursor log\<rparr>) w
        = (Some moreLog, w') \<longrightarrow>
      commits (fst (getLogMoreFn env log rv options arg w)) = [(a, x), (b, y), (c, z'), (d, u), (e, v)] \<and>
      count (fst (getLogMoreFn env log rv options arg w)) = 5) \<and>
     (getLogForPath env (Some (repoPath log)) p rv
        (options\<lparr>opt_limit := Some (if moreUntil_of arg = None then getPagingLimit env (moreLimit_of arg) else 0),
                 opt_cursor := endingCursor log\<rparr>) w
        = (Inr (Some moreLog), w') \<longrightarrow>
      (\<exists>lg. getLogForPathMoreFn env log p rv options arg w = (Inr lg, w') \<and>
         commits lg = [(a, x), (b, y), (c, z'), (d, u), (e, v)] \<and> count lg = 5))"
proof -
  have m: "new_Map (commits log @ commits moreLog) = [(a, x), (b, y), (c, z'), (d, u), (e, v)]"
    using assms(1,3,4) by (simp add: new_Map_def)
  have 1: "commits (fst (getLogMoreFn env log rv options arg w)) = [(a, x), (b, y), (c, z'), (d, u), (e, v)] \<and>
      count (fst (getLogMoreFn env log rv options arg w)) = 5"
    if "getLog env (Some (repoPath log)) rv
        (options\<lparr>opt_limit := Some (getPagingLimit env (moreLimit_of arg)), opt_cursor := endingCursor log\<rparr>) w
        = (Some moreLog, w')"
    using getLogMoreFn_some(1,2) [OF assms(2) that] by (simp add: m)
  have 2: "\<exists>lg. getLogForPathMoreFn env log p rv options arg w = (Inr lg, w') \<and>
         commits lg = [(a, x), (b, y), (c, z'), (d, u), (e, v)] \<and> count lg = 5"
    if "getLogForPath env (Some (repoPath log)) p rv
        (options\<lparr>opt_limit := Some (if moreUntil_of arg = None then getPagingLimit env (moreLimit_of arg) else 0),
                 opt_cursor := endingCursor log\<rparr>) w
        = (Inr (Some moreLog), w')"
    using getLogForPathMoreFn_some [OF assms(2) that] by (auto simp: m)
  show ?thesis using 1 2 by blast
qed

theorem more_merge_pages_witness:
  "commits (fst (getLogMoreFn demo_env demo_log (Some ''main'') demo_options (Some (Limit 3)) demo_world))
     = [(''a'', demo_commit ''a'' ''first''), (''b'', demo_commit ''b'' ''second''),
        (''c'', demo_commit ''c'' ''third, amended''), (''d'', demo_commit ''d'' ''fourth''),
        (''e'', demo_commit ''e'' ''fifth'')] \<and>
   count (fst (getLogMoreFn demo_env demo_log (Some ''main'') demo_options (Some (Limit 3)) demo_world)) = 5 \<and>
   (\<exists>lg w'. getLogForPathMoreFn demo_env demo_log ''file.txt'' (Some ''main'') demo_options (Some (Limit 3)) demo_world
              = (Inr lg, w') \<and>
            map fst (commits lg) = [''a'', ''b'', ''c'', ''d'', ''e''] \<and> count lg = 5)"
proof -
  have d: "distinct [''a'', ''b'', ''c'', ''d'', ''e'']" by simp
  have c1: "commits demo_log = [(''a'', demo_commit ''a'' ''first''), (''b'', demo_commit ''b'' ''second''),
                 (''c'', demo_commit ''c'' ''third'')]"
    by (simp add: demo_log_def)
  have c2: "commits demo_page2_log = [(''c'', demo_commit ''c'' ''third, amended''),
                 (''d'', demo_commit ''d'' ''fourth''), (''e'', demo_commit ''e'' ''fifth'')]"
    by (simp add: demo_page2_log_def)
  have 1: "commits (fst (getLogMoreFn demo_env demo_log (Some ''main'') demo_options (Some (Limit 3)) demo_world))
     = [(''a'', demo_commit ''a'' ''first''), (''b'', demo_commit ''b'' ''second''),
        (''c'', demo_commit ''c'' ''third, amended''), (''d'', demo_commit ''d'' ''fourth''),
        (''e'', demo_commit ''e'' ''fifth'')] \<and>
   count (fst (getLogMoreFn demo_env demo_log (Some ''main'') demo_options (Some (Limit 3)) demo_world)) = 5"
    using more_merge_pages [OF d demo_log_not_reached c1 c2, of demo_env "Some ''main''" demo_options demo_world]
      demo_more_call
    by simp
  obtain pageLog w'' z u v where p: "getLogForPath demo_env (Some (repoPath demo_log)) ''file.txt'' (Some ''main'')
       (demo_options\<lparr>opt_limit := Some (if moreUntil_of (Some (Limit 3)) = None
                                         then getPagingLimit demo_env (moreLimit_of (Some (Limit 3))) else 0),
                     opt_cursor := endingCursor demo_log\<rparr>) demo_world
     = (Inr (Some pageLog), w'')" and pc: "commits pageLog = [(''c'', z), (''d'', u), (''e'', v)]"
    using demo_path_page2 by blast
  have 2: "\<exists>lg w'. getLogForPathMoreFn demo_env demo_log ''file.txt'' (Some ''main'') demo_options (Some (Limit 3)) demo_world
              = (Inr lg, w') \<and>
            map fst (commits lg) = [''a'', ''b'', ''c'', ''d'', ''e''] \<and> count lg = 5"
    using more_merge_pages [OF d demo_log_not_reached c1 pc, of demo_env "Some ''main''" demo_options demo_world
            w'' "''file.txt''"] p
    by auto
  show ?thesis using 1 2 by blast
qed

text \<open>
  C2 as stated fails where it says that the entry of \<open>c\<close> is never written a second
  time: on the concrete repository the second page brings \<open>c\<close> with another message, and
  the merged log holds the page's entry for \<open>c\<close>, not the prior log's.
\<close>

theorem more_merge_overwrites_counterexample:
  "map fst (commits demo_log) = [''a'', ''b'', ''c''] \<and>
   map fst (commits demo_page2_log) = [''c'', ''d'', ''e''] \<and>
   fst (getLog demo_env (Some (repoPath demo_log)) (Some ''main'')
          (demo_options\<lparr>opt_limit := Some (getPagingLimit demo_env (moreLimit_of (Some (Limit 3)))),
                        opt_cursor := endingCursor demo_log\<rparr>) demo_world) = Some demo_page2_log \<and>
   map_of (commits (fst (getLogMoreFn demo_env demo_log (Some ''main'') demo_options (Some (Limit 3)) demo_world))) ''c''
     = map_of (commits demo_page2_log) ''c'' \<and>
   map_of (commits (fst (getLogMoreFn demo_env demo_log (Some ''main'') demo_options (Some (Limit 3)) demo_world))) ''c''
     \<noteq> map_of (commits demo_log) ''c''"
proof -
  have m: "commits (fst (getLogMoreFn demo_env demo_log (Some ''main'') demo_options (Some (Limit 3)) demo_world))
           = new_Map (commits demo_log @ commits demo_page2_log)"
    using getLogMoreFn_some(1) [OF demo_log_not_reached demo_more_call] .
  have ne: "demo_commit ''c'' ''third, amended'' \<noteq> demo_commit ''c'' ''third''"
    by (simp add: demo_commit_def toGitCommit_def new_GitCommit_def demo_raw_def)
  show ?thesis
    using ne by (simp add: m demo_more_call) (simp add: demo_log_def demo_page2_log_def new_Map_def)
qed

text \<open>
  C4, as amended. When the underlying fetch of a continuation fails, the continuation
  returns the prior log with \<^verbatim>\<open>hasMore = false\<close> and no \<^verbatim>\<open>more\<close>, every other field as
  it was, and no error reaches the caller. For the continuation of \<^verbatim>\<open>getLog\<close> the fetch
  is the call of \<^verbatim>\<open>github.getCommits\<close> that the inner \<^verbatim>\<open>getLog\<close> makes, and the failed
  call is the one recorded. For the continuation of \<^verbatim>\<open>getLogForPath\<close> it is the promise
  of \<^verbatim>\<open>getLogForPathCore\<close>, with the call of \<^verbatim>\<open>github.getCommits\<close> in it, which the
  inner \<^verbatim>\<open>getLogForPath\<close> starts once it has passed its path guard and folder lookup and
  has missed the cache. More generally, either continuation returns that log whenever its
  inner call yields no log. Nothing is said about an empty page.
\<close>

theorem more_without_log:
  assumes "\<not> untilReached log (moreUntil_of arg)"
  shows
    "(\<forall>ctx rv' e.
        ensureRepositoryContext env (repoPath log) = Inr (Some ctx) \<and>
        resolveRevision ctx rv = Inr rv' \<and>
        github_getCommits env
          (getLog_call env ctx rv'
             (options\<lparr>opt_limit := Some (getPagingLimit env (moreLimit_of arg)), opt_cursor := endingCursor log\<rparr>)) = Inl e \<longrightarrow>
        getLogMoreFn env log rv options arg w =
          (log\<lparr>hasMore := False, moreFn := None\<rparr>,
           recordCall
             (getLog_call env ctx rv'
                (options\<lparr>opt_limit := Some (getPagingLimit env (moreLimit_of arg)), opt_cursor := endingCursor log\<rparr>)) w)) \<and>
     (fst (getLog env (Some (repoPath log)) rv
             (options\<lparr>opt_limit := Some (getPagingLimit env (moreLimit_of arg)), opt_cursor := endingCursor log\<rparr>) w) = None \<longrightarrow>
      getLogMoreFn env log rv options arg w =
        (log\<lparr>hasMore := False, moreFn := None\<rparr>,
         snd (getLog env (Some (repoPath log)) rv
                (options\<lparr>opt_limit := Some (getPagingLimit env (moreLimit_of arg)), opt_cursor := endingCursor log\<rparr>) w))) \<and>
     (\<forall>rel opts ctx rv' e.
        getRelativePath env p (repoPath log) \<noteq> repoPath log \<and>
        resolveFolder env (repoPath log) (getRelativePath env p (repoPath log)) rv
          (pathOptions env
             (options\<lparr>opt_limit := Some (if moreUntil_of arg = None then getPagingLimit env (moreLimit_of arg) else 0),
                       opt_cursor := endingCursor log\<rparr>)) = Inr (rel, opts) \<and>
        (case cacheKeyOf env rv opts of
           None \<Rightarrow> None
         | Some key \<Rightarrow>
             (case docs w (GitUri_fromFile env rel (repoPath log) rv) of
                None \<Rightarrow> None
              | Some st \<Rightarrow> lookupCached (repoPath log) p rv opts key st)) = None \<and>
        ensureRepositoryContext env (repoPath log) = Inr (Some ctx) \<and>
        resolveRevision ctx rv = Inr rv' \<and>
        github_getCommits env (getLogForPathCore_call env ctx (repoPath log) rel rv' opts) = Inl e \<longrightarrow>
        fst (getLogForPathMoreFn env log p rv options arg w) = Inr (log\<lparr>hasMore := False, moreFn := None\<rparr>) \<and>
        calls (snd (getLogForPathMoreFn env log p rv options arg w)) =
          calls w @ [getLogForPathCore_call env ctx (repoPath log) rel rv' opts]) \<and>
     (\<forall>rel opts e w2.
        getRelativePath env p (repoPath log) \<noteq> repoPath log \<and>
        resolveFolder env (repoPath log) (getRelativePath env p (repoPath log)) rv
          (pathOptions env
             (options\<lparr>opt_limit := Some (if moreUntil_of arg = None then getPagingLimit env (moreLimit_of arg) else 0),
                       opt_cursor := endingCursor log\<rparr>)) = Inr (rel, opts) \<and>
        (case cacheKeyOf env rv opts of
           None \<Rightarrow> None
         | Some key \<Rightarrow>
             (case docs w (GitUri_fromFile env rel (repoPath log) rv) of
                None \<Rightarrow> None
              | Some st \<Rightarrow> lookupCached (repoPath log) p rv opts key st)) = None \<and>
        getLogForPathCore env (Some (repoPath log)) rel rv opts
          (if cacheKeyOf env rv opts \<noteq> None
           then ensureState (GitUri_fromFile env rel (repoPath log) rv) w else w) = (Inl e, w2) \<longrightarrow>
        fst (getLogForPathMoreFn env log p rv options arg w) = Inr (log\<lparr>hasMore := False, moreFn := None\<rparr>)) \<and>
     (fst (getLogForPath env (Some (repoPath log)) p rv
             (options\<lparr>opt_limit := Some (if moreUntil_of arg = None then getPagingLimit env (moreLimit_of arg) else 0),
                       opt_cursor := endingCursor log\<rparr>) w) = Inr None \<longrightarrow>
      getLogForPathMoreFn env log p rv options arg w =
        (Inr (log\<lparr>hasMore := False, moreFn := None\<rparr>),
         snd (getLogForPath env (Some (repoPath log)) p rv
                (options\<lparr>opt_limit := Some (if moreUntil_of arg = None then getPagingLimit env (moreLimit_of arg) else 0),
                       opt_cursor := endingCursor log\<rparr>) w)))"
proof -
  let ?o1 = "(options\<lparr>opt_limit := Some (getPagingLimit env (moreLimit_of arg)), opt_cursor := endingCursor log\<rparr>)"
  let ?o2 = "(options\<lparr>opt_limit := Some (if moreUntil_of arg = None then getPagingLimit env (moreLimit_of arg) else 0),
                       opt_cursor := endingCursor log\<rparr>)"
  let ?rp = "repoPath log"
  have g: "getLogMoreFn env log rv options arg w = (log\<lparr>hasMore := False, moreFn := None\<rparr>, snd (getLog env (Some ?rp) rv ?o1 w))"
    if "fst (getLog env (Some ?rp) rv ?o1 w) = None"
    using getLogMoreFn_none [OF assms, of env rv options w "snd (getLog env (Some ?rp) rv ?o1 w)"] that
    by (simp add: prod_eq_iff)
  have c1: "getLogMoreFn env log rv options arg w = (log\<lparr>hasMore := False, moreFn := None\<rparr>, recordCall (getLog_call env ctx rv' ?o1) w)"
    if "ensureRepositoryContext env ?rp = Inr (Some ctx)" and "resolveRevision ctx rv = Inr rv'"
      and "github_getCommits env (getLog_call env ctx rv' ?o1) = Inl e" for ctx rv' e
    using g getLog_fetch_rejected [OF that, of w] by simp
  have pth: "getLogForPathMoreFn env log p rv options arg w =
        (Inr (log\<lparr>hasMore := False, moreFn := None\<rparr>), snd (getLogForPath env (Some ?rp) p rv ?o2 w))"
    if "fst (getLogForPath env (Some ?rp) p rv ?o2 w) = Inr None"
    using getLogForPathMoreFn_none [OF assms, of env p rv options w
            "snd (getLogForPath env (Some ?rp) p rv ?o2 w)"] that
    by (simp add: prod_eq_iff)
  have c4: "fst (getLogForPathMoreFn env log p rv options arg w) = Inr (log\<lparr>hasMore := False, moreFn := None\<rparr>) \<and>
            calls (snd (getLogForPathMoreFn env log p rv options arg w)) = calls w2"
    if "getRelativePath env p ?rp \<noteq> ?rp"
      and "resolveFolder env ?rp (getRelativePath env p ?rp) rv (pathOptions env ?o2) = Inr (rel, opts)"
      and "(case cacheKeyOf env rv opts of
             None \<Rightarrow> None
           | Some key \<Rightarrow>
               (case docs w (GitUri_fromFile env rel ?rp rv) of
                  None \<Rightarrow> None
                | Some st \<Rightarrow> lookupCached ?rp p rv opts key st)) = None"
      and "getLogForPathCore env (Some ?rp) rel rv opts
             (if cacheKeyOf env rv opts \<noteq> None then ensureState (GitUri_fromFile env rel ?rp rv) w else w)
           = (Inl e, w2)" for rel opts e w2
    using pth getLogForPath_core_rejected [OF that] by simp
  have c3: "fst (getLogForPathMoreFn env log p rv options arg w) = Inr (log\<lparr>hasMore := False, moreFn := None\<rparr>) \<and>
            calls (snd (getLogForPathMoreFn env log p rv options arg w)) =
              calls w @ [getLogForPathCore_call env ctx ?rp rel rv' opts]"
    if r: "getRelativePath env p ?rp \<noteq> ?rp"
      "resolveFolder env ?rp (getRelativePath env p ?rp) rv (pathOptions env ?o2) = Inr (rel, opts)"
      "(case cacheKeyOf env rv opts of
             None \<Rightarrow> None
           | Some key \<Rightarrow>
               (case docs w (GitUri_fromFile env rel ?rp rv) of
                  None \<Rightarrow> None
                | Some st \<Rightarrow> lookupCached ?rp p rv opts key st)) = None"
      and f: "ensureRepositoryContext env ?rp = Inr (Some ctx)" "resolveRevision ctx rv = Inr rv'"
        "github_getCommits env (getLogForPathCore_call env ctx ?rp rel rv' opts) = Inl e"
    for rel opts ctx rv' e
  proof -
    let ?w1 = "if cacheKeyOf env rv opts \<noteq> None then ensureState (GitUri_fromFile env rel ?rp rv) w else w"
    have core: "getLogForPathCore env (Some ?rp) rel rv opts ?w1
                = (Inl e, recordCall (getLogForPathCore_call env ctx ?rp rel rv' opts) ?w1)"
      by (rule core_fetch_rejected [OF f])
    have "calls (recordCall (getLogForPathCore_call env ctx ?rp rel rv' opts) ?w1)
          = calls w @ [getLogForPathCore_call env ctx ?rp rel rv' opts]"
      by simp
    then show ?thesis using c4 [OF r core] by simp
  qed
  show ?thesis
  proof (intro conjI allI impI)
    fix ctx rv' e
    assume "ensureRepositoryContext env ?rp = Inr (Some ctx) \<and> resolveRevision ctx rv = Inr rv' \<and>
            github_getCommits env (getLog_call env ctx rv' ?o1) = Inl e"
    then show "getLogMoreFn env log rv options arg w = (log\<lparr>hasMore := False, moreFn := None\<rparr>, recordCall (getLog_call env ctx rv' ?o1) w)"
      by (intro c1) simp_all
  next
    assume "fst (getLog env (Some ?rp) rv ?o1 w) = None"
    then show "getLogMoreFn env log rv options arg w = (log\<lparr>hasMore := False, moreFn := None\<rparr>, snd (getLog env (Some ?rp) rv ?o1 w))"
      by (rule g)
  next
    fix rel opts ctx rv' e
    assume a: "getRelativePath env p ?rp \<noteq> ?rp \<and>
        resolveFolder env ?rp (getRelativePath env p ?rp) rv (pathOptions env ?o2) = Inr (rel, opts) \<and>
        (case cacheKeyOf env rv opts of
           None \<Rightarrow> None
         | Some key \<Rightarrow>
             (case docs w (GitUri_fromFile env rel ?rp rv) of
                None \<Rightarrow> None
              | Some st \<Rightarrow> lookupCached ?rp p rv opts key st)) = None \<and>
        ensureRepositoryContext env ?rp = Inr (Some ctx) \<and>
        resolveRevision ctx rv = Inr rv' \<and>
        github_getCommits env (getLogForPathCore_call env ctx ?rp rel rv' opts) = Inl e"
    show "fst (getLogForPathMoreFn env log p rv options arg w) = Inr (log\<lparr>hasMore := False, moreFn := None\<rparr>)"
      by (rule c3 [of rel opts ctx rv' e, THEN conjunct1]) (use a in simp_all)
    show "calls (snd (getLogForPathMoreFn env log p rv options arg w)) =
          calls w @ [getLogForPathCore_call env ctx ?rp rel rv' opts]"
      by (rule c3 [of rel opts ctx rv' e, THEN conjunct2]) (use a in simp_all)
  next
    fix rel opts e w2
    assume a: "getRelativePath env p ?rp \<noteq> ?rp \<and>
        resolveFolder env ?rp (getRelativePath env p ?rp) rv (pathOptions env ?o2) = Inr (rel, opts) \<and>
        (case cacheKeyOf env rv opts of
           None \<Rightarrow> None
         | Some key \<Rightarrow>
             (case docs w (GitUri_fromFile env rel ?rp rv) of
                None \<Rightarrow> None
              | Some st \<Rightarrow> lookupCached ?rp p rv opts key st)) = None \<and>
        getLogForPathCore env (Some ?rp) rel rv opts
          (if cacheKeyOf env rv opts \<noteq> None
           then ensureState (GitUri_fromFile env rel ?rp rv) w else w) = (Inl e, w2)"
    show "fst (getLogForPathMoreFn env log p rv options arg w) = Inr (log\<lparr>hasMore := False, moreFn := None\<rparr>)"
      by (rule c4 [of rel opts e w2, THEN conjunct1]) (use a in simp_all)
  next
    assume "fst (getLogForPath env (Some ?rp) p rv ?o2 w) = Inr None"
    then show "getLogForPathMoreFn env log p rv options arg w =
        (Inr (log\<lparr>hasMore := False, moreFn := None\<rparr>), snd (getLogForPath env (Some ?rp) p rv ?o2 w))"
      by (rule pth)
  qed
qed

text \<open>
  The witness of C4, on the concrete repository: a remote that rejects the fetch of
  \<^verbatim>\<open>getLog\<close>; a repository without a context; the path \<^verbatim>\<open>gone.txt\<close>, for which the remote
  rejects the fetch of \<^verbatim>\<open>getLogForPathCore\<close>; and a path log of the repository without a
  context, where the promise of \<^verbatim>\<open>getLogForPathCore\<close> rejects before any fetch.
\<close>

theorem more_without_log_witness:
  "getLogMoreFn demo_offline_env demo_log (Some ''main'') demo_options (Some (Limit 3)) demo_world
     = (demo_log\<lparr>hasMore := False, moreFn := None\<rparr>,
        demo_world\<lparr>calls := [(''token'', ''octo'', ''demo'', ''main'',
                                \<lparr>req_all = None, req_authors = None, req_after = Some ''p2'', req_path = None,
                                 req_limit = 3, req_since = None\<rparr>)]\<rparr>) \<and>
   getLogMoreFn demo_env (demo_log\<lparr>repoPath := ''/offline''\<rparr>) (Some ''main'') demo_options (Some (Limit 3)) demo_world
     = (demo_log\<lparr>repoPath := ''/offline'', hasMore := False, moreFn := None\<rparr>, demo_world) \<and>
   fst (getLogForPathMoreFn demo_env demo_log ''gone.txt'' (Some ''main'') demo_options (Some (Limit 3)) demo_world)
     = Inr (demo_log\<lparr>hasMore := False, moreFn := None\<rparr>) \<and>
   calls (snd (getLogForPathMoreFn demo_env demo_log ''gone.txt'' (Some ''main'') demo_options (Some (Limit 3))
                 demo_world))
     = [(''token'', ''octo'', ''demo'', ''main'',
         \<lparr>req_all = Some False, req_authors = None, req_after = Some ''p2'', req_path = Some ''gone.txt'',
          req_limit = 3, req_since = None\<rparr>)] \<and>
   fst (getLogForPathMoreFn demo_env (demo_log\<lparr>repoPath := ''/offline''\<rparr>) ''file.txt'' (Some ''main'')
          demo_options (Some (Limit 3)) demo_world)
     = Inr (demo_log\<lparr>repoPath := ''/offline'', hasMore := False, moreFn := None\<rparr>)"
proof -
  let ?off = "demo_log\<lparr>repoPath := ''/offline''\<rparr>"
  let ?o = "demo_options\<lparr>opt_limit := Some 3, opt_cursor := Some ''p2''\<rparr>"
  let ?opts = "(pathOptions demo_env ?o)\<lparr>opt_isFolder := Some False\<rparr>"
  have n1: "\<not> untilReached ?off (moreUntil_of (Some (Limit 3)))"
    by (simp add: untilReached_def moreUntil_of_def)
  have o1: "demo_options\<lparr>opt_limit := Some (getPagingLimit demo_offline_env (moreLimit_of (Some (Limit 3)))),
                          opt_cursor := endingCursor demo_log\<rparr> = ?o"
    by (simp add: demo_offline_env_def demo_env_def moreLimit_of_def demo_log_def)
  have o2: "demo_options\<lparr>opt_limit := Some (if moreUntil_of (Some (Limit 3)) = None
                                              then getPagingLimit demo_env (moreLimit_of (Some (Limit 3))) else 0),
                          opt_cursor := endingCursor demo_log\<rparr> = ?o"
    by (simp add: demo_env_def moreLimit_of_def moreUntil_of_def demo_log_def)
  have o3: "demo_options\<lparr>opt_limit := Some (if moreUntil_of (Some (Limit 3)) = None
                                              then getPagingLimit demo_env (moreLimit_of (Some (Limit 3))) else 0),
                          opt_cursor := endingCursor ?off\<rparr> = ?o"
    by (simp add: demo_env_def moreLimit_of_def moreUntil_of_def demo_log_def)
  have o4: "demo_options\<lparr>opt_limit := Some (getPagingLimit demo_env (moreLimit_of (Some (Limit 3)))),
                          opt_cursor := endingCursor ?off\<rparr> = ?o"
    by (simp add: demo_env_def moreLimit_of_def demo_log_def)
  \<comment> \<open>the continuation of getLog, the fetch rejected\<close>
  have a1: "ensureRepositoryContext demo_offline_env (repoPath demo_log) = Inr (Some demo_context)"
    by (simp add: demo_offline_env_def demo_env_def demo_log_def)
  have a2: "resolveRevision demo_context (Some ''main'') = Inr ''main''"
    by (simp add: resolveRevision_def)
  have a3: "github_getCommits demo_offline_env (getLog_call demo_offline_env demo_context ''main'' ?o)
            = Inl (Error ''offline'')"
    by (simp add: demo_offline_env_def)
  have a4: "recordCall (getLog_call demo_offline_env demo_context ''main'' ?o) demo_world
            = demo_world\<lparr>calls := [(''token'', ''octo'', ''demo'', ''main'',
                                \<lparr>req_all = None, req_authors = None, req_after = Some ''p2'', req_path = None,
                                 req_limit = 3, req_since = None\<rparr>)]\<rparr>"
    by (simp add: recordCall_def getLog_call_def demo_world_def demo_offline_env_def demo_env_def
          demo_context_def demo_options_def)
  have c1: "getLogMoreFn demo_offline_env demo_log (Some ''main'') demo_options (Some (Limit 3)) demo_world
     = (demo_log\<lparr>hasMore := False, moreFn := None\<rparr>,
        demo_world\<lparr>calls := [(''token'', ''octo'', ''demo'', ''main'',
                                \<lparr>req_all = None, req_authors = None, req_after = Some ''p2'', req_path = None,
                                 req_limit = 3, req_since = None\<rparr>)]\<rparr>)"
    using more_without_log [OF demo_log_not_reached, of demo_offline_env "Some ''main''" demo_options demo_world,
            THEN conjunct1, rule_format, of demo_context "''main''" "Error ''offline''"]
      a1 a2 a3
    unfolding o1 a4 by simp
  \<comment> \<open>the continuation of getLog, no repository context\<close>
  have g2: "fst (getLog demo_env (Some (repoPath ?off)) (Some ''main'') ?o demo_world) = None"
       "snd (getLog demo_env (Some (repoPath ?off)) (Some ''main'') ?o demo_world) = demo_world"
    by (simp_all add: getLog_def demo_env_def)
  have c2: "getLogMoreFn demo_env ?off (Some ''main'') demo_options (Some (Limit 3)) demo_world
     = (demo_log\<lparr>repoPath := ''/offline'', hasMore := False, moreFn := None\<rparr>, demo_world)"
    using more_without_log [OF n1, of demo_env "Some ''main''" demo_options demo_world,
            THEN conjunct2, THEN conjunct1] g2
    unfolding o4 by simp
  \<comment> \<open>the continuation of getLogForPath, the fetch rejected\<close>
  have r1: "getRelativePath demo_env ''gone.txt'' (repoPath demo_log) \<noteq> repoPath demo_log"
    by (simp add: demo_env_def demo_log_def)
  have r2: "resolveFolder demo_env (repoPath demo_log) (getRelativePath demo_env ''gone.txt'' (repoPath demo_log))
              (Some ''main'') (pathOptions demo_env ?o) = Inr (''gone.txt'', ?opts)"
    by (simp add: resolveFolder_def demo_env_def pathOptions_def demo_options_def)
  have key: "cacheKeyOf demo_env (Some ''main'') ?opts = None"
    by (simp add: cacheKeyOf_def pathOptions_def)
  have r3: "(case cacheKeyOf demo_env (Some ''main'') ?opts of
               None \<Rightarrow> None
             | Some key \<Rightarrow>
                 (case docs demo_world (GitUri_fromFile demo_env ''gone.txt'' (repoPath demo_log) (Some ''main'')) of
                    None \<Rightarrow> None
                  | Some st \<Rightarrow> lookupCached (repoPath demo_log) ''gone.txt'' (Some ''main'') ?opts key st)) = None"
    by (simp add: key)
  have f1: "ensureRepositoryContext demo_env (repoPath demo_log) = Inr (Some demo_context)"
    by (simp add: demo_env_def demo_log_def)
  have f3: "github_getCommits demo_env
              (getLogForPathCore_call demo_env demo_context (repoPath demo_log) ''gone.txt'' ''main'' ?opts)
            = Inl (Error ''Not Found'')"
    by (simp add: getLogForPathCore_call_def demo_env_def demo_getCommits_def)
  have f4: "getLogForPathCore_call demo_env demo_context (repoPath demo_log) ''gone.txt'' ''main'' ?opts
            = (''token'', ''octo'', ''demo'', ''main'',
               \<lparr>req_all = Some False, req_authors = None, req_after = Some ''p2'', req_path = Some ''gone.txt'',
                req_limit = 3, req_since = None\<rparr>)"
    by (simp add: getLogForPathCore_call_def demo_env_def demo_context_def pathOptions_def demo_options_def)
  have c3: "fst (getLogForPathMoreFn demo_env demo_log ''gone.txt'' (Some ''main'') demo_options (Some (Limit 3)) demo_world)
     = Inr (demo_log\<lparr>hasMore := False, moreFn := None\<rparr>) \<and>
   calls (snd (getLogForPathMoreFn demo_env demo_log ''gone.txt'' (Some ''main'') demo_options (Some (Limit 3))
                 demo_world))
     = calls demo_world @
       [getLogForPathCore_call demo_env demo_context (repoPath demo_log) ''gone.txt'' ''main'' ?opts]"
    using more_without_log [OF demo_log_not_reached, of demo_env "Some ''main''" demo_options demo_world
            "''gone.txt''", THEN conjunct2, THEN conjunct2, THEN conjunct1, rule_format,
            of "''gone.txt''" ?opts demo_context "''main''" "Error ''Not Found''"]
      r1 r2 r3 f1 a2 f3
    unfolding o2 by simp
  \<comment> \<open>the continuation of getLogForPath, the promise of the core rejected without a context\<close>
  have q1: "getRelativePath demo_env ''file.txt'' (repoPath ?off) \<noteq> repoPath ?off"
    by (simp add: demo_env_def)
  have q2: "resolveFolder demo_env (repoPath ?off) (getRelativePath demo_env ''file.txt'' (repoPath ?off))
              (Some ''main'') (pathOptions demo_env ?o) = Inr (''file.txt'', ?opts)"
    by (simp add: resolveFolder_def demo_env_def pathOptions_def demo_options_def)
  have q3: "(case cacheKeyOf demo_env (Some ''main'') ?opts of
               None \<Rightarrow> None
             | Some key \<Rightarrow>
                 (case docs demo_world (GitUri_fromFile demo_env ''file.txt'' (repoPath ?off) (Some ''main'')) of
                    None \<Rightarrow> None
                  | Some st \<Rightarrow> lookupCached (repoPath ?off) ''file.txt'' (Some ''main'') ?opts key st)) = None"
    by (simp add: key)
  have q4: "getLogForPathCore demo_env (Some (repoPath ?off)) ''file.txt'' (Some ''main'') ?opts
              (if cacheKeyOf demo_env (Some ''main'') ?opts \<noteq> None
               then ensureState (GitUri_fromFile demo_env ''file.txt'' (repoPath ?off) (Some ''main'')) demo_world
               else demo_world)
            = (Inl (Error ''offline''), demo_world)"
    by (simp add: key) (simp add: getLogForPathCore_def demo_env_def)
  have c4: "fst (getLogForPathMoreFn demo_env ?off ''file.txt'' (Some ''main'') demo_options (Some (Limit 3)) demo_world)
     = Inr (demo_log\<lparr>repoPath := ''/offline'', hasMore := False, moreFn := None\<rparr>)"
    using more_without_log [OF n1, of demo_env "Some ''main''" demo_options demo_world "''file.txt''",
            THEN conjunct2, THEN conjunct2, THEN conjunct2, THEN conjunct1, rule_format,
            of "''file.txt''" ?opts "Error ''offline''" demo_world]
      q1 q2 q3 q4
    unfolding o3 by simp
  \<comment> \<open>the continuation of getLogForPath, by the outcome of the inner call\<close>
  have g5: "fst (getLogForPath demo_env (Some (repoPath demo_log)) ''gone.txt'' (Some ''main'') ?o demo_world)
            = Inr None"
    by (simp add: path_eval_defs demo_defs resolveRevision_def recordCall_def Let_def)
  have c5: "fst (getLogForPathMoreFn demo_env demo_log ''gone.txt'' (Some ''main'') demo_options (Some (Limit 3)) demo_world)
     = Inr (demo_log\<lparr>hasMore := False, moreFn := None\<rparr>)"
    using more_without_log [OF demo_log_not_reached, of demo_env "Some ''main''" demo_options demo_world
            "''gone.txt''", THEN conjunct2, THEN conjunct2, THEN conjunct2, THEN conjunct2] g5
    unfolding o2 by simp
  have cw: "calls demo_world = []" by (simp add: demo_world_def)
  show ?thesis
    using c1 c2 c3 c4 c5 unfolding f4 cw by simp
qed

text \<open>
  C4 as stated fails for an empty page: \<^verbatim>\<open>getLog\<close> answers an empty page with a log of
  no commits, not with \<^verbatim>\<open>undefined\<close>, and the continuation merges it like any other
  page, so the limit grows and the cursor is replaced.
\<close>

theorem more_empty_page_counterexample:
  "github_getCommits demo_env
     (''token'', ''octo'', ''demo'', ''main'',
      \<lparr>req_all = None, req_authors = None, req_after = Some ''p3'', req_path = None, req_limit = 3,
       req_since = None\<rparr>) = Inr demo_empty_page \<and>
   result_values demo_empty_page = [] \<and>
   limit (demo_last_log\<lparr>hasMore := False, moreFn := None\<rparr>) = Some 3 \<and>
   endingCursor (demo_last_log\<lparr>hasMore := False, moreFn := None\<rparr>) = Some ''p3'' \<and>
   limit (fst (getLogMoreFn demo_env demo_last_log (Some ''main'') demo_options (Some (Limit 3)) demo_world))
     = Some 6 \<and>
   endingCursor (fst (getLogMoreFn demo_env demo_last_log (Some ''main'') demo_options (Some (Limit 3)) demo_world))
     = None \<and>
   fst (getLogMoreFn demo_env demo_last_log (Some ''main'') demo_options (Some (Limit 3)) demo_world)
     \<noteq> demo_last_log\<lparr>hasMore := False, moreFn := None\<rparr>"
  by (simp add: getLogMoreFn_def demo_defs eval_defs new_Map_def)

text \<open>
  C1. The path of \<^verbatim>\<open>getLogForPath\<close> that answers from the whole-file log: the query is
  cacheable (the path is no folder and is not the repository path), and its document holds
  no entry under the query's own key but holds, under the key \<^verbatim>\<open>log\<close>, a log \<open>L\<close> with
  \<^verbatim>\<open>hasMore = false\<close> whose commits contain the requested revision \<open>r\<close>. Then
  \<^verbatim>\<open>getLogForPath\<close> returns a copy of \<open>L\<close> whose commits are the contiguous entries of
  \<open>L\<close> from \<open>r\<close> on (inclusive), at most \<open>n\<close> of them, where \<open>n\<close> is the requested limit
  as the paging policy \<^verbatim>\<open>getPagingLimit\<close> returns it (the requested limit itself under a
  policy that leaves it alone); its \<^verbatim>\<open>count\<close> is the size of that map, and its \<^verbatim>\<open>limit\<close>
  and \<^verbatim>\<open>query\<close> are its own. The state is returned as it was: no fetch is issued and the
  cache is not written.
\<close>

theorem getLogForPath_partial_from_cache:
  assumes "getRelativePath env pathOrUri rp \<noteq> rp"
    and "resolveFolder env rp (getRelativePath env pathOrUri rp) (Some r) (pathOptions env options)
         = Inr (relativePath, opts)"
    and "cacheKeyOf env (Some r) opts = Some key"
    and "docs w (GitUri_fromFile env relativePath rp (Some r)) = Some st"
    and "st key = None"
    and "st ''log'' = Some cachedLog"
    and "item cachedLog = Some L"
    and "\<not> hasMore L"
    and "map_has (commits L) r"
    and "distinct (map fst (commits L))"
  shows "getLogForPath env (Some rp) pathOrUri (Some r) options w =
           (Inr (Some (L\<lparr>limit := Some (getPagingLimit env (opt_limit options)),
                           count := length (take (nat (getPagingLimit env (opt_limit options)))
                                              (dropWhile (\<lambda>e. fst e \<noteq> r) (commits L))),
                           commits := take (nat (getPagingLimit env (opt_limit options)))
                                        (dropWhile (\<lambda>e. fst e \<noteq> r) (commits L)),
                           query := Some (LogForPathQuery rp pathOrUri (Some r) opts)\<rparr>)),
            w)"
proof -
  let ?n = "getPagingLimit env (opt_limit options)"
  let ?cs = "take (nat ?n) (dropWhile (\<lambda>e. fst e \<noteq> r) (commits L))"
  have lim: "opt_limit opts = Some ?n" and ren: "opt_renames opts = Some False"
    using resolveFolder_pathOptions [OF assms(2)] by simp_all
  have ne: "rp \<noteq> getRelativePath env pathOrUri rp" using assms(1) [symmetric] .
  have cs: "new_Map (copyFrom r (Some ?n) True 0 (commits L)) = ?cs"
    using assms(10) by (simp only: copyFrom_take new_Map_distinct distinct_take_dropWhile)
  have part: "partialLog rp pathOrUri r opts L =
        L\<lparr>limit := Some ?n, count := length ?cs, commits := ?cs,
          query := Some (LogForPathQuery rp pathOrUri (Some r) opts)\<rparr>"
    unfolding partialLog_def Let_def lim cs ..
  have nofollow: "truthy_bool (opt_renames opts) = False"
    by (simp add: ren truthy_bool_def)
  have look: "lookupCached rp pathOrUri (Some r) opts key st = Some (Some (partialLog rp pathOrUri r opts L))"
    unfolding lookupCached_def nofollow using assms(5,6,7,8,9) by simp
  have "getLogForPath env (Some rp) pathOrUri (Some r) options w
        = (Inr (Some (partialLog rp pathOrUri r opts L)), w)"
    unfolding getLogForPath_def Let_def using ne assms(2,3,4) look by simp
  then show ?thesis unfolding part .
qed

theorem getLogForPath_partial_from_cache_witness:
  "getLogForPath demo_env (Some ''/repo'') ''file.txt'' (Some ''c3'') (demo_options\<lparr>opt_limit := Some 2\<rparr>)
     demo_cached_world
   = (Inr (Some (demo_file_log
        \<lparr>limit := Some 2, count := 2,
         commits := [(''c3'', demo_commit ''c3'' ''three''), (''c2'', demo_commit ''c2'' ''two'')],
         query := Some (LogForPathQuery ''/repo'' ''file.txt'' (Some ''c3'')
                    (demo_options\<lparr>opt_all := Some False, opt_limit := Some 2, opt_renames := Some False,
                                  opt_isFolder := Some False\<rparr>))\<rparr>)),
      demo_cached_world)"
proof -
  let ?opts = "(pathOptions demo_env (demo_options\<lparr>opt_limit := Some 2\<rparr>))\<lparr>opt_isFolder := Some False\<rparr>"
  let ?st = "[''log'' \<mapsto> \<lparr>item = Some demo_file_log, errorMessage = None\<rparr>]"
  have h1: "getRelativePath demo_env ''file.txt'' ''/repo'' \<noteq> ''/repo''"
    by (simp add: demo_env_def)
  have h2: "resolveFolder demo_env ''/repo'' (getRelativePath demo_env ''file.txt'' ''/repo'') (Some ''c3'')
              (pathOptions demo_env (demo_options\<lparr>opt_limit := Some 2\<rparr>)) = Inr (''file.txt'', ?opts)"
    by (simp add: demo_resolveFolder) (simp add: demo_options_def)
  have h3: "cacheKeyOf demo_env (Some ''c3'') ?opts = Some ''log:c3:n2''"
    by (simp add: cacheKeyOf_def pathOptions_def demo_options_def demo_env_def truthy_bool_def
          number_toString_def string_of_nat.simps)
  have h4: "docs demo_cached_world (GitUri_fromFile demo_env ''file.txt'' ''/repo'' (Some ''c3'')) = Some ?st"
    by (simp add: demo_cached_world_def demo_env_def)
  have h5: "?st ''log:c3:n2'' = None" by simp
  have h6: "?st ''log'' = Some \<lparr>item = Some demo_file_log, errorMessage = None\<rparr>" by simp
  have h7: "item \<lparr>item = Some demo_file_log, errorMessage = None\<rparr> = Some demo_file_log" by simp
  have h8: "\<not> hasMore demo_file_log" by (simp add: demo_file_log_def)
  have h9: "map_has (commits demo_file_log) ''c3''" by (simp add: demo_file_log_def map_has_def)
  have h10: "distinct (map fst (commits demo_file_log))" by (simp add: demo_file_log_def)
  have n: "getPagingLimit demo_env (opt_limit (demo_options\<lparr>opt_limit := Some 2\<rparr>)) = 2"
    by (simp add: demo_env_def)
  have o: "?opts = demo_options\<lparr>opt_all := Some False, opt_limit := Some 2, opt_renames := Some False,
                                  opt_isFolder := Some False\<rparr>"
    by (simp add: pathOptions_def demo_env_def)
  have c: "take (nat 2) (dropWhile (\<lambda>e. fst e \<noteq> ''c3'') (commits demo_file_log))
           = [(''c3'', demo_commit ''c3'' ''three''), (''c2'', demo_commit ''c2'' ''two'')]"
    by (simp add: demo_file_log_def numeral_2_eq_2)
  show ?thesis
    using getLogForPath_partial_from_cache [OF h1 h2 h3 h4 h5 h6 h7 h8 h9 h10]
    unfolding n o c by simp
qed

text \<open>
  C6. Let a path query be cacheable and miss the cache, and let the promise of
  \<^verbatim>\<open>getLogForPathCore\<close> (the fetch) reject with \<open>e\<close>. Then \<^verbatim>\<open>getLogForPath\<close> resolves to
  the value of \<^verbatim>\<open>emptyPromise\<close>, the resolved promise that stands for the empty log, and
  leaves under the query's key that promise together with the text of \<open>e\<close>. The same
  query on the state so reached is answered by that entry: it returns the value of
  \<^verbatim>\<open>emptyPromise\<close> again and changes nothing, so no further call of \<^verbatim>\<open>github.getCommits\<close>
  is recorded.
\<close>

theorem getLogForPath_negative_cache:
  assumes "getRelativePath env pathOrUri rp \<noteq> rp"
    and "resolveFolder env rp (getRelativePath env pathOrUri rp) rv (pathOptions env options)
         = Inr (relativePath, opts)"
    and "cacheKeyOf env rv opts = Some key"
    and "d = GitUri_fromFile env relativePath rp rv"
    and "(case docs w d of None \<Rightarrow> None | Some st \<Rightarrow> lookupCached rp pathOrUri rv opts key st) = None"
    and "getLogForPathCore env (Some rp) relativePath rv opts (ensureState d w) = (Inl e, w2)"
  shows "\<exists>w'. getLogForPath env (Some rp) pathOrUri rv options w = (Inr emptyPromise, w') \<and>
           calls w' = calls w2 \<and>
           (\<exists>st. docs w' d = Some st \<and>
                 st key = Some \<lparr>item = emptyPromise, errorMessage = Some (toString e)\<rparr>) \<and>
           getLogForPath env (Some rp) pathOrUri rv options w' = (Inr emptyPromise, w')"
proof -
  let ?w' = "setLog d key \<lparr>item = emptyPromise, errorMessage = Some (toString e)\<rparr>
               (setLog d key \<lparr>item = emptyPromise, errorMessage = None\<rparr> w2)"
  have ne: "rp \<noteq> getRelativePath env pathOrUri rp" using assms(1) [symmetric] .
  have miss: "(case docs w (GitUri_fromFile env relativePath rp rv) of None \<Rightarrow> None
               | Some st \<Rightarrow> lookupCached rp pathOrUri rv opts key st) = None"
    using assms(5) unfolding assms(4) .
  have core: "getLogForPathCore env (Some rp) relativePath rv opts
                (ensureState (GitUri_fromFile env relativePath rp rv) w) = (Inl e, w2)"
    using assms(6) unfolding assms(4) .
  have first: "getLogForPath env (Some rp) pathOrUri rv options w = (Inr emptyPromise, ?w')"
    unfolding getLogForPath_def Let_def using ne assms(2,3) miss core
    by (simp add: assms(4))
  obtain st0 where st0: "docs (ensureState d w) d = Some st0"
    using docs_ensureState_same by blast
  have d2: "docs w2 d = Some st0"
    using core_docs [OF assms(6)] st0 by simp
  have d3: "docs ?w' d = Some (st0(key \<mapsto> \<lparr>item = emptyPromise, errorMessage = Some (toString e)\<rparr>))"
    using d2 by (simp add: docs_setLog_same)
  have look: "lookupCached rp pathOrUri rv opts key
                (st0(key \<mapsto> \<lparr>item = emptyPromise, errorMessage = Some (toString e)\<rparr>))
              = Some emptyPromise"
    by (simp add: lookupCached_def)
  have second: "getLogForPath env (Some rp) pathOrUri rv options ?w' = (Inr emptyPromise, ?w')"
    unfolding getLogForPath_def Let_def using ne assms(2,3) d3 look
    by (simp add: assms(4) [symmetric])
  have c: "calls ?w' = calls w2" by simp
  show ?thesis using first second d3 c by auto
qed

text \<open>
  The witness of C6: on the concrete repository the fetch for \<^verbatim>\<open>gone.txt\<close> is rejected;
  one call is recorded, the entry with the message is stored, and the repeated query
  returns from it.
\<close>

theorem getLogForPath_negative_cache_witness:
  "\<exists>w'. getLogForPath demo_env (Some ''/repo'') ''gone.txt'' None demo_options demo_world = (Inr emptyPromise, w') \<and>
         calls w' = [(''token'', ''octo'', ''demo'', ''main'',
                      \<lparr>req_all = Some False, req_authors = None, req_after = None, req_path = Some ''gone.txt'',
                       req_limit = 100, req_since = None\<rparr>)] \<and>
         (\<exists>st. docs w' ''/repo/gone.txt'' = Some st \<and>
               st ''log:n100'' = Some \<lparr>item = emptyPromise, errorMessage = Some ''Error: Not Found''\<rparr>) \<and>
         getLogForPath demo_env (Some ''/repo'') ''gone.txt'' None demo_options w' = (Inr emptyPromise, w')"
proof -
  let ?opts = "(pathOptions demo_env demo_options)\<lparr>opt_isFolder := Some False\<rparr>"
  let ?call = "(''token'', ''octo'', ''demo'', ''main'',
        \<lparr>req_all = Some False, req_authors = None, req_after = None, req_path = Some ''gone.txt'',
         req_limit = 100, req_since = None\<rparr>)"
  have h1: "getRelativePath demo_env ''gone.txt'' ''/repo'' \<noteq> ''/repo''"
    by (simp add: demo_env_def)
  have h2: "resolveFolder demo_env ''/repo'' (getRelativePath demo_env ''gone.txt'' ''/repo'') None
              (pathOptions demo_env demo_options) = Inr (''gone.txt'', ?opts)"
    by (simp add: demo_resolveFolder) (simp add: demo_options_def)
  have h3: "cacheKeyOf demo_env None ?opts = Some ''log:n100''"
    by (simp add: cacheKeyOf_def pathOptions_def demo_options_def demo_env_def truthy_bool_def
          number_toString_def string_of_nat.simps)
  have h4: "''/repo/gone.txt'' = GitUri_fromFile demo_env ''gone.txt'' ''/repo'' None"
    by (simp add: demo_env_def)
  have h5: "(case docs demo_world ''/repo/gone.txt'' of None \<Rightarrow> None
             | Some st \<Rightarrow> lookupCached ''/repo'' ''gone.txt'' None ?opts ''log:n100'' st) = None"
    by (simp add: demo_world_def)
  have h6: "getLogForPathCore demo_env (Some ''/repo'') ''gone.txt'' None ?opts
              (ensureState ''/repo/gone.txt'' demo_world)
            = (Inl (Error ''Not Found''), recordCall ?call (ensureState ''/repo/gone.txt'' demo_world))"
    by (rule demo_gone_core)
  have c: "calls (recordCall ?call (ensureState ''/repo/gone.txt'' demo_world)) = [?call]"
    by (simp add: demo_world_def)
  show ?thesis
    using getLogForPath_negative_cache [OF h1 h2 h3 h4 h5 h6] c by simp
qed

text \<open>
  C5. Every log returned by \<^verbatim>\<open>getLog\<close>, \<^verbatim>\<open>getLogForPath\<close>, \<^verbatim>\<open>searchCommits\<close> or a
  continuation satisfies \<open>log_ok\<close>: its \<^verbatim>\<open>count\<close> is the number of entries of its
  \<^verbatim>\<open>commits\<close>, no id is the key of two entries, and when \<^verbatim>\<open>hasMore\<close> is false it has no
  continuation. For \<^verbatim>\<open>getLogForPath\<close>, which may answer from the cache, this is so when
  the logs in the cache satisfy the invariant, and the cache it leaves does again; for a
  continuation, when the log it was built for satisfies the invariant.
\<close>

theorem logs_satisfy_invariants:
  "(\<forall>lg w'. getLog env rp rv options w = (Some lg, w') \<longrightarrow> log_ok lg) \<and>
   (cache_ok w \<longrightarrow>
      cache_ok (snd (getLogForPath env rp p rv options w)) \<and>
      (\<forall>lg. fst (getLogForPath env rp p rv options w) = Inr (Some lg) \<longrightarrow> log_ok lg)) \<and>
   (\<forall>lg. result_log (searchCommits env rp search source options) = Some lg \<longrightarrow> log_ok lg) \<and>
   (log_ok log \<longrightarrow> log_ok (fst (getLogMoreFn env log rv options arg w))) \<and>
   (log_ok log \<and> cache_ok w \<longrightarrow>
      cache_ok (snd (getLogForPathMoreFn env log p rv options arg w)) \<and>
      (\<forall>lg. fst (getLogForPathMoreFn env log p rv options arg w) = Inr lg \<longrightarrow> log_ok lg)) \<and>
   (log_ok log \<longrightarrow> log_ok (searchCommitsCore env log search source options n))"
proof -
  have c1: "\<forall>lg w'. getLog env rp rv options w = (Some lg, w') \<longrightarrow> log_ok lg"
    using getLog_log_ok by blast
  have c2: "cache_ok w \<longrightarrow>
      cache_ok (snd (getLogForPath env rp p rv options w)) \<and>
      (\<forall>lg. fst (getLogForPath env rp p rv options w) = Inr (Some lg) \<longrightarrow> log_ok lg)"
  proof (intro impI conjI allI)
    assume c: "cache_ok w"
    show "cache_ok (snd (getLogForPath env rp p rv options w))"
      using c by (rule getLogForPath_cache_ok)
    fix lg
    assume "fst (getLogForPath env rp p rv options w) = Inr (Some lg)"
    then have "getLogForPath env rp p rv options w = (Inr (Some lg), snd (getLogForPath env rp p rv options w))"
      by (simp add: prod_eq_iff)
    then show "log_ok lg" using getLogForPath_ok [OF c] by blast
  qed
  have c3: "\<forall>lg. result_log (searchCommits env rp search source options) = Some lg \<longrightarrow> log_ok lg"
    using searchCommits_log_ok by blast
  have c4: "log_ok log \<longrightarrow> log_ok (fst (getLogMoreFn env log rv options arg w))"
    using getLogMoreFn_log_ok by blast
  have c5: "log_ok log \<and> cache_ok w \<longrightarrow>
      cache_ok (snd (getLogForPathMoreFn env log p rv options arg w)) \<and>
      (\<forall>lg. fst (getLogForPathMoreFn env log p rv options arg w) = Inr lg \<longrightarrow> log_ok lg)"
    using getLogForPathMoreFn_ok by blast
  have c6: "log_ok log \<longrightarrow> log_ok (searchCommitsCore env log search source options n)"
    using searchCommitsCore_log_ok by blast
  show ?thesis
    by (intro conjI) (rule c1, rule c2, rule c3, rule c4, rule c5, rule c6)
qed

theorem logs_satisfy_invariants_witness:
  "log_ok demo_page2_log \<and>
   cache_ok (snd (getLogForPath demo_env (Some ''/repo'') ''file.txt'' (Some ''c3'')
                    (demo_options\<lparr>opt_limit := Some 2\<rparr>) demo_cached_world)) \<and>
   (\<exists>lg. fst (getLogForPath demo_env (Some ''/repo'') ''file.txt'' (Some ''c3'')
                (demo_options\<lparr>opt_limit := Some 2\<rparr>) demo_cached_world) = Inr (Some lg) \<and> log_ok lg) \<and>
   (\<exists>lg. result_log (searchCommits demo_env (Some ''/repo'')
            \<lparr>search_query = ''fix'', matchAll = None, matchCase = None, matchRegex = None,
             matchWholeWord = None, naturalLanguage = None\<rparr> ''view'' demo_options) = Some lg \<and> log_ok lg) \<and>
   log_ok (fst (getLogMoreFn demo_env demo_log (Some ''main'') demo_options (Some (Limit 3)) demo_world)) \<and>
   cache_ok (snd (getLogForPathMoreFn demo_env demo_log ''gone.txt'' (Some ''main'') demo_options
                    (Some (Limit 3)) demo_world)) \<and>
   (\<exists>lg. fst (getLogForPathMoreFn demo_env demo_log ''gone.txt'' (Some ''main'') demo_options
                (Some (Limit 3)) demo_world) = Inr lg \<and> log_ok lg) \<and>
   log_ok (searchCommitsCore demo_env demo_log
            \<lparr>search_query = ''fix'', matchAll = None, matchCase = None, matchRegex = None,
             matchWholeWord = None, naturalLanguage = None\<rparr> ''view'' demo_options (Some 3))"
proof -
  let ?search = "\<lparr>search_query = ''fix'', matchAll = None, matchCase = None, matchRegex = None,
             matchWholeWord = None, naturalLanguage = None\<rparr>"
  note a = logs_satisfy_invariants [of demo_env "Some ''/repo''" "Some ''main''"
      "demo_options\<lparr>opt_limit := Some 3, opt_cursor := Some ''p2''\<rparr>" demo_world]
  have 1: "log_ok demo_page2_log"
    using a demo_getLog_page2 by blast
  note b = logs_satisfy_invariants [of demo_env "Some ''/repo''" "Some ''c3''"
      "demo_options\<lparr>opt_limit := Some 2\<rparr>" demo_cached_world "''file.txt''"]
  have 2: "cache_ok (snd (getLogForPath demo_env (Some ''/repo'') ''file.txt'' (Some ''c3'')
                    (demo_options\<lparr>opt_limit := Some 2\<rparr>) demo_cached_world))"
    using b demo_cached_world_cache_ok by blast
  have 3: "\<exists>lg. fst (getLogForPath demo_env (Some ''/repo'') ''file.txt'' (Some ''c3'')
                (demo_options\<lparr>opt_limit := Some 2\<rparr>) demo_cached_world) = Inr (Some lg) \<and> log_ok lg"
    using b demo_cached_world_cache_ok demo_partial_some by blast
  note c = logs_satisfy_invariants [of demo_env "Some ''/repo''" "Some ''main''" demo_options demo_world
      "''gone.txt''" ?search "''view''" demo_log "Some (Limit 3)" "Some 3"]
  have 4: "\<exists>lg. result_log (searchCommits demo_env (Some ''/repo'') ?search ''view'' demo_options) = Some lg \<and> log_ok lg"
    using c demo_search_some by blast
  have 5: "log_ok (fst (getLogMoreFn demo_env demo_log (Some ''main'') demo_options (Some (Limit 3)) demo_world))"
    using c demo_log_ok by blast
  have 6: "cache_ok (snd (getLogForPathMoreFn demo_env demo_log ''gone.txt'' (Some ''main'') demo_options
                    (Some (Limit 3)) demo_world))"
    using c demo_log_ok demo_world_cache_ok by blast
  have 7: "\<exists>lg. fst (getLogForPathMoreFn demo_env demo_log ''gone.txt'' (Some ''main'') demo_options
                (Some (Limit 3)) demo_world) = Inr lg \<and> log_ok lg"
    using c demo_log_ok demo_world_cache_ok demo_path_more_some by blast
  have 8: "log_ok (searchCommitsCore demo_env demo_log ?search ''view'' demo_options (Some 3))"
    using c demo_log_ok by blast
  show ?thesis
    by (intro conjI) (rule 1, rule 2, rule 3, rule 4, rule 5, rule 6, rule 7, rule 8)
qed

end
